theory Spec2Isabelle
  imports Complex_Main "HOL-Library.Multiset" "HOL-Library.AList"
begin

chapter \<open>The notebooks as functions\<close>

section \<open>Numeric library functions used by the notebooks\<close>

text \<open>
  The notebooks compute with NumPy arrays of float64 numbers. A number is modelled as the
  exact real that the float64 result rounds, and the one special value those results can
  take, NaN (the mean of an empty array), is \<open>None\<close>. Two comparisons are modelled in
  float64, as NumPy computes them, because rounding changes their outcome when the
  numbers compared tie or nearly tie: the comparison of differences of means in the
  permutation test, and the circle test of the pi exercise, which compares a sum of
  squares with 1. The next section defines the float64 numbers.

  \<open>np_mean\<close> is \<^verbatim>\<open>a.mean()\<close> / \<^verbatim>\<open>np.mean(a)\<close> on an array of numbers, \<open>np_mean_arr\<close>
  the same call on an array of earlier results, any of which may be NaN (NaN propagates
  through a sum). Subtraction and \<^verbatim>\<open>np.abs\<close> propagate NaN, and a comparison with NaN
  is false.
\<close>

datatype py_error =
  IndexError | KeyError | ValueError | NameError | ZeroDivisionError | TypeError

definition np_mean :: "real list \<Rightarrow> real option" where
  "np_mean xs = (if xs = [] then None else Some (sum_list xs / real (length xs)))"

definition np_mean_arr :: "real option list \<Rightarrow> real option" where
  "np_mean_arr ms = (case those ms of None \<Rightarrow> None | Some xs \<Rightarrow> np_mean xs)"




text \<open>\<^verbatim>\<open>np.sum\<close> of a boolean array counts its true entries.\<close>

definition np_sum_bool :: "bool list \<Rightarrow> nat" where
  "np_sum_bool bs = length (filter id bs)"

text \<open>
  \<^verbatim>\<open>a[idx]\<close> with a two-dimensional integer index array: one row of entries of \<open>a\<close> per
  row of \<open>idx\<close>; an index beyond the array raises IndexError.
\<close>

definition fancy_index :: "'a list \<Rightarrow> nat list list \<Rightarrow> py_error + 'a list list" where
  "fancy_index a idx =
     (if list_all (list_all (\<lambda>j. j < length a)) idx then Inr (map (map ((!) a)) idx)
      else Inl IndexError)"

text \<open>
  \<^verbatim>\<open>np.percentile(a, q)\<close> with its default linear interpolation: in the sorted array, the
  value at the fractional position \<open>q / 100 * (n - 1)\<close>, interpolated between the entries
  below and above it. On an empty array there is no entry to take and the call raises
  IndexError. \<open>np_percentile_arr\<close> is the call on an array of earlier results, NaN if one
  of them is; \<open>np_percentile_rows\<close> is the call with \<^verbatim>\<open>axis=1\<close>, one percentile per row
  of a two-dimensional array. Of several calls the first error is the one raised.
  \<^verbatim>\<open>np.median\<close> is the middle entry of the sorted array, or the mean of the two middle
  entries, and NaN on an empty array.
\<close>

definition np_percentile :: "real list \<Rightarrow> real \<Rightarrow> py_error + real" where
  "np_percentile a q =
     (if a = [] then Inl IndexError
      else let s = sort a;
               top = length a - 1;
               pos = q / 100 * real top;
               below = nat \<lfloor>pos\<rfloor>;
               above = min (below + 1) top;
               w = pos - real below
           in Inr (s ! below * (1 - w) + s ! above * w))"

fun first_error :: "('e + 'a) list \<Rightarrow> 'e + 'a list" where
  "first_error [] = Inr []"
| "first_error (Inl e # rs) = Inl e"
| "first_error (Inr x # rs) =
     (case first_error rs of Inl e \<Rightarrow> Inl e | Inr xs \<Rightarrow> Inr (x # xs))"

definition np_percentile_arr :: "real option list \<Rightarrow> real \<Rightarrow> py_error + real option" where
  "np_percentile_arr ms q =
     (case those ms of
        None \<Rightarrow> Inr None
      | Some xs \<Rightarrow> (case np_percentile xs q of Inl e \<Rightarrow> Inl e | Inr v \<Rightarrow> Inr (Some v)))"



section \<open>Float64 arithmetic\<close>

text \<open>
  A float64 is a finite number \<open>m * 2 ^ e\<close> with an integer \<open>m\<close> of absolute value
  below \<open>2 ^ 53\<close> and \<open>- 1074 \<le> e \<le> 971\<close>, an infinity, or NaN. The sign of zero is not
  modelled: nothing that is computed here depends on it.

  \<open>round_float64 x\<close> is the float64 nearest to the real \<open>x\<close> (IEEE 754, round to nearest,
  ties to even): \<open>x\<close> is rounded to the nearest multiple of the spacing of the float64
  numbers around it, which is \<open>2 ^ (e - 52)\<close> when \<open>2 ^ e \<le> |x| < 2 ^ (e + 1)\<close>
  (\<open>float64_exponent\<close> is this \<open>e\<close>, held between \<open>- 1022\<close> and \<open>1023\<close>), a tie going to
  the even multiple, and the result is an infinity when that multiple is beyond the
  largest float64. An arithmetic operation returns the rounded exact result; infinities
  and NaN propagate, the difference of equal infinities is NaN, and a comparison with NaN
  is false.
\<close>

datatype float64 = Finite real | PosInf | NegInf | NaN

definition largest_float64 :: real where
  "largest_float64 = (2 ^ 53 - 1) * 2 ^ 971"

definition float64_exponent :: "real \<Rightarrow> int" where
  "float64_exponent x = Max (insert (- 1022) {e \<in> {- 1022..1023}. power_int 2 e \<le> \<bar>x\<bar>})"

definition round_half_even :: "real \<Rightarrow> int" where
  "round_half_even y =
     (let n = \<lfloor>y\<rfloor>; d = y - of_int n
      in if d < 1 / 2 then n else if 1 / 2 < d then n + 1 else if even n then n else n + 1)"

definition round_float64 :: "real \<Rightarrow> float64" where
  "round_float64 x =
     (let ulp = power_int 2 (float64_exponent x - 52);
          y = of_int (round_half_even (x / ulp)) * ulp
      in if largest_float64 < y then PosInf
         else if y < - largest_float64 then NegInf
         else Finite y)"

definition f64_add :: "float64 \<Rightarrow> float64 \<Rightarrow> float64" where
  "f64_add x y =
     (case (x, y) of
        (Finite a, Finite b) \<Rightarrow> round_float64 (a + b)
      | (NaN, _) \<Rightarrow> NaN
      | (_, NaN) \<Rightarrow> NaN
      | (PosInf, NegInf) \<Rightarrow> NaN
      | (NegInf, PosInf) \<Rightarrow> NaN
      | (PosInf, _) \<Rightarrow> PosInf
      | (_, PosInf) \<Rightarrow> PosInf
      | (NegInf, _) \<Rightarrow> NegInf
      | (_, NegInf) \<Rightarrow> NegInf)"

definition f64_neg :: "float64 \<Rightarrow> float64" where
  "f64_neg x =
     (case x of Finite a \<Rightarrow> Finite (- a) | PosInf \<Rightarrow> NegInf | NegInf \<Rightarrow> PosInf | NaN \<Rightarrow> NaN)"

definition f64_sub :: "float64 \<Rightarrow> float64 \<Rightarrow> float64" where
  "f64_sub x y = f64_add x (f64_neg y)"

definition f64_abs :: "float64 \<Rightarrow> float64" where
  "f64_abs x =
     (case x of Finite a \<Rightarrow> Finite \<bar>a\<bar> | PosInf \<Rightarrow> PosInf | NegInf \<Rightarrow> PosInf | NaN \<Rightarrow> NaN)"

definition f64_le :: "float64 \<Rightarrow> float64 \<Rightarrow> bool" where
  "f64_le x y =
     (case (x, y) of
        (NaN, _) \<Rightarrow> False
      | (_, NaN) \<Rightarrow> False
      | (NegInf, _) \<Rightarrow> True
      | (_, PosInf) \<Rightarrow> True
      | (Finite a, Finite b) \<Rightarrow> a \<le> b
      | _ \<Rightarrow> False)"

definition f64_ge :: "float64 \<Rightarrow> float64 \<Rightarrow> bool" where
  "f64_ge x y = f64_le y x"


text \<open>
  The quotient of a float64 sum by the number of entries it was taken over. With no
  entries the sum is 0 and the quotient \<open>0 / 0\<close> is NaN.
\<close>

definition f64_div_count :: "float64 \<Rightarrow> nat \<Rightarrow> float64" where
  "f64_div_count x n =
     (case x of
        Finite a \<Rightarrow>
          if n = 0 then (if a = 0 then NaN else if 0 < a then PosInf else NegInf)
          else round_float64 (a / real n)
      | _ \<Rightarrow> x)"

text \<open>
  \<^verbatim>\<open>a.mean()\<close> and \<^verbatim>\<open>a.mean(axis=1)\<close> on float64 arrays whose entries are finite: the
  float64 sum of the entries (of a row), divided by their number. NumPy sums a
  contiguous run of float64 numbers pairwise. With fewer than 8 entries it adds them one
  after the other, starting from 0. With up to 128 entries it keeps eight running sums,
  the \<open>j\<close>-th over the entries at the positions \<open>j, j + 8, j + 16, \<dots>\<close> of the leading
  blocks of eight, adds the eight up as a balanced tree, and then adds the entries
  after the last full block one after the other. A longer array is cut in two, the first
  part half as long, rounded down to a multiple of 8, and the sums of the two parts are
  added. Each addition is rounded.
\<close>

definition sum_onto :: "float64 \<Rightarrow> real list \<Rightarrow> float64" where
  "sum_onto res a = fold (\<lambda>x res. f64_add res (Finite x)) a res"

function pairwise_sum :: "real list \<Rightarrow> float64" where
  "pairwise_sum a =
     (if length a < 8 then sum_onto (Finite 0) a
      else if length a \<le> 128 then
        (let r = fold (\<lambda>j r. map2 f64_add r (map Finite (take 8 (drop (8 * j) a))))
                      [1..<length a div 8] (map Finite (take 8 a));
             res = f64_add (f64_add (f64_add (r ! 0) (r ! 1)) (f64_add (r ! 2) (r ! 3)))
                           (f64_add (f64_add (r ! 4) (r ! 5)) (f64_add (r ! 6) (r ! 7)))
         in sum_onto res (drop (8 * (length a div 8)) a))
      else
        (let n2 = length a div 2 - length a div 2 mod 8
         in f64_add (pairwise_sum (take n2 a)) (pairwise_sum (drop n2 a))))"
  by pat_completeness auto

termination
proof (relation "measure length")
  show "wf (measure length)" by simp
next
  fix a :: "real list" and n2
  assume "\<not> length a < 8" "\<not> length a \<le> 128" "n2 = length a div 2 - length a div 2 mod 8"
  then show "(take n2 a, a) \<in> measure length" by simp
next
  fix a :: "real list" and n2
  assume a: "\<not> length a < 8" "\<not> length a \<le> 128" "n2 = length a div 2 - length a div 2 mod 8"
  have "length a div 2 mod 8 < 8" by simp
  with a have "0 < n2" by linarith
  moreover have "0 < length a" using a(2) by linarith
  ultimately have "length a - n2 < length a" by linarith
  then show "(drop n2 a, a) \<in> measure length" by simp
qed

declare pairwise_sum.simps [simp del]

definition mean_float64 :: "real list \<Rightarrow> float64" where
  "mean_float64 a = f64_div_count (pairwise_sum a) (length a)"

section \<open>What the random number generator returns\<close>

text \<open>
  The generator's output is an input of every exercise: each function below takes the
  values its sampler calls return. \<^verbatim>\<open>np.random.choice(a, size=sz, replace=True)\<close>
  returns \<open>sz\<close> entries of \<open>a\<close>, the \<open>k\<close>-th at an index drawn in \<open>[0, len a)\<close>;
  \<open>raw k\<close> is the generator's \<open>k\<close>-th raw value of that call.
\<close>

definition np_random_choice :: "'a list \<Rightarrow> nat \<Rightarrow> (nat \<Rightarrow> nat) \<Rightarrow> 'a list" where
  "np_random_choice a sz raw = map (\<lambda>k. a ! (raw k mod length a)) [0..<sz]"

section \<open>Resampling methods: running a simple bootstrap\<close>

text \<open>
  \<^verbatim>\<open>
  mean_lengths, sims = [], 1000
  for i in range(sims):
      temp_sample = np.random.choice(wrench_lengths, replace=True, size=len(wrench_lengths))
      sample_mean = temp_sample.mean()
      mean_lengths.append(sample_mean)
  boot_mean = np.mean(mean_lengths)
  boot_95_ci = np.percentile(mean_lengths, [2.5, 97.5])
  \<close>
  \<open>raw i\<close> is the generator's output in iteration \<open>i\<close>.
\<close>

definition bootstrap ::
  "real list \<Rightarrow> (nat \<Rightarrow> nat \<Rightarrow> nat) \<Rightarrow> py_error + real option \<times> real option list" where
  "bootstrap wrench_lengths raw =
     (let sims = 1000;
          mean_lengths =
            fold (\<lambda>i acc.
                    let temp_sample =
                          np_random_choice wrench_lengths (length wrench_lengths) (raw i);
                        sample_mean = np_mean temp_sample
                    in acc @ [sample_mean])
                 [0..<sims] [];
          boot_mean = np_mean_arr mean_lengths
      in case first_error (map (np_percentile_arr mean_lengths) [2.5, 97.5]) of
           Inl e \<Rightarrow> Inl e
         | Inr boot_95_ci \<Rightarrow> Inr (boot_mean, boot_95_ci))"

section \<open>Resampling methods: basic jackknife estimation of the mean\<close>

text \<open>
  \<^verbatim>\<open>
  mean_lengths, n = [], len(wrench_lengths)
  index = np.arange(n)
  wrench_lengths = np.array(wrench_lengths)
  for i in range(n):
      jk_sample = wrench_lengths[index != i]
      mean_lengths.append(jk_sample.mean())
  mean_lengths_jk = np.mean(np.array(mean_lengths))
  \<close>
  \<open>jk_sample\<close> is the boolean-mask selection \<^verbatim>\<open>wrench_lengths[index != i]\<close>: the
  entries whose position in \<^verbatim>\<open>index = arange(n)\<close> differs from \<open>i\<close>.
\<close>

definition jk_sample :: "real list \<Rightarrow> nat \<Rightarrow> real list" where
  "jk_sample wrench_lengths i =
     map fst (filter (\<lambda>p. snd p \<noteq> i) (zip wrench_lengths [0..<length wrench_lengths]))"

definition jackknife_mean :: "real list \<Rightarrow> real option" where
  "jackknife_mean wrench_lengths =
     (let n = length wrench_lengths;
          mean_lengths =
            fold (\<lambda>i acc. acc @ [np_mean (jk_sample wrench_lengths i)]) [0..<n] []
      in np_mean_arr mean_lengths)"

section \<open>Resampling methods: permutation tests\<close>

text \<open>
  \<^verbatim>\<open>
  data = np.concatenate([donations_A, donations_B])
  reps = 1000
  perm = np.array([np.random.permutation(len(donations_A) + len(donations_B))
                   for i in range(reps)])
  permuted_A_datasets = data[perm[:, :len(donations_A)]]
  permuted_B_datasets = data[perm[:, len(donations_A):]]
  samples = permuted_A_datasets.mean(axis=1) - permuted_B_datasets.mean(axis=1)
  test_stat = donations_A.mean() - donations_B.mean()
  p_val = 2*np.sum(samples >= np.abs(test_stat))/reps
  \<close>
  \<open>permutation i\<close> is what the \<open>i\<close>-th call of \<^verbatim>\<open>np.random.permutation\<close> returns. The
  two arrays hold finite float64 numbers. The means, their differences and the
  comparison \<^verbatim>\<open>samples >= np.abs(test_stat)\<close>, which decides what is counted, are
  float64 operations; the p-value is the exact quotient that the printed float64 rounds.
\<close>

definition reps :: nat where
  "reps = 1000"

definition permuted_datasets ::
  "real list \<Rightarrow> real list \<Rightarrow> (nat \<Rightarrow> nat list)
     \<Rightarrow> py_error + (real list list \<times> real list list)" where
  "permuted_datasets donations_A donations_B permutation =
     (let data = donations_A @ donations_B;
          perm = map (\<lambda>i. permutation i) [0..<reps]
      in case fancy_index data (map (take (length donations_A)) perm) of
           Inl e \<Rightarrow> Inl e
         | Inr permuted_A_datasets \<Rightarrow>
             (case fancy_index data (map (drop (length donations_A)) perm) of
                Inl e \<Rightarrow> Inl e
              | Inr permuted_B_datasets \<Rightarrow> Inr (permuted_A_datasets, permuted_B_datasets)))"

text \<open>\<^verbatim>\<open>2*np.sum(exceeds)/n\<close> for a boolean array \<open>exceeds\<close>.\<close>

definition p_value :: "bool list \<Rightarrow> nat \<Rightarrow> real" where
  "p_value exceeds n = 2 * real (np_sum_bool exceeds) / real n"

definition p_val :: "real list \<Rightarrow> real list \<Rightarrow> (nat \<Rightarrow> nat list) \<Rightarrow> py_error + real" where
  "p_val donations_A donations_B permutation =
     (case permuted_datasets donations_A donations_B permutation of
        Inl e \<Rightarrow> Inl e
      | Inr (permuted_A_datasets, permuted_B_datasets) \<Rightarrow>
          let samples = map2 f64_sub (map mean_float64 permuted_A_datasets)
                                     (map mean_float64 permuted_B_datasets);
              test_stat = f64_sub (mean_float64 donations_A) (mean_float64 donations_B)
          in Inr (p_value (map (\<lambda>s. f64_ge s (f64_abs test_stat)) samples) reps))"


section \<open>The vocabulary of the specification\<close>

text \<open>
  The arithmetic mean of a sample; the generator's promise that each of the \<open>reps\<close>
  calls of \<^verbatim>\<open>np.random.permutation(n)\<close> returns a permutation of \<open>0, \<dots>, n - 1\<close>; the A
  part of a permuted dataset (the entries of the concatenated data at the first
  \<open>len(donations_A)\<close> permuted positions) and its B part (the rest); and the difference
  in means of two arrays, as the cell computes it.
\<close>

definition arith_mean :: "real list \<Rightarrow> real" where
  "arith_mean xs = sum_list xs / real (length xs)"

definition valid_permutations :: "nat \<Rightarrow> (nat \<Rightarrow> nat list) \<Rightarrow> bool" where
  "valid_permutations n permutation =
     list_all (\<lambda>i. mset (permutation i) = mset [0..<n]) [0..<reps]"

definition permuted_A :: "real list \<Rightarrow> real list \<Rightarrow> nat list \<Rightarrow> real list" where
  "permuted_A donations_A donations_B p =
     map ((!) (donations_A @ donations_B)) (take (length donations_A) p)"

definition permuted_B :: "real list \<Rightarrow> real list \<Rightarrow> nat list \<Rightarrow> real list" where
  "permuted_B donations_A donations_B p =
     map ((!) (donations_A @ donations_B)) (drop (length donations_A) p)"

definition difference_in_means :: "real list \<Rightarrow> real list \<Rightarrow> float64" where
  "difference_in_means a b = f64_sub (mean_float64 a) (mean_float64 b)"

section \<open>Basics of randomness and simulation: the break-even lottery price\<close>

text \<open>
  \<^verbatim>\<open>
  sims, lottery_ticket_cost = 3000, 0
  while 1:
      outcomes = np.random.choice([-lottery_ticket_cost, grand_prize-lottery_ticket_cost],
                   size=sims, p=[1-chance_of_winning, chance_of_winning], replace=True)
      if outcomes.mean() < 0:
          break
      else:
          lottery_ticket_cost += 1
  answer = lottery_ticket_cost - 1
  \<close>
  \<open>grand_prize\<close> and \<open>chance_of_winning\<close> are globals left by the cells before; the
  probabilities \<^verbatim>\<open>p\<close> only weigh which of the two payoffs a draw picks. \<open>raw it\<close> is the
  generator's output in the \<open>it\<close>-th pass of the loop. A loop that never leaves is \<open>None\<close>.
  A comparison with NaN is false.
\<close>

definition np_lt :: "real option \<Rightarrow> real \<Rightarrow> bool" where
  "np_lt a x = (case a of Some v \<Rightarrow> v < x | None \<Rightarrow> False)"

partial_function (option) lottery_loop ::
  "int \<Rightarrow> (nat \<Rightarrow> nat \<Rightarrow> nat) \<Rightarrow> nat \<Rightarrow> int \<Rightarrow> int option" where
  "lottery_loop grand_prize raw it lottery_ticket_cost =
     (let sims = 3000;
          outcomes = np_random_choice
                       [- lottery_ticket_cost, grand_prize - lottery_ticket_cost] sims (raw it)
      in if np_lt (np_mean (map real_of_int outcomes)) 0 then Some lottery_ticket_cost
         else lottery_loop grand_prize raw (it + 1) (lottery_ticket_cost + 1))"

definition break_even_price :: "int \<Rightarrow> (nat \<Rightarrow> nat \<Rightarrow> nat) \<Rightarrow> int option" where
  "break_even_price grand_prize raw =
     (case lottery_loop grand_prize raw 0 0 of
        None \<Rightarrow> None
      | Some lottery_ticket_cost \<Rightarrow> Some (lottery_ticket_cost - 1))"

section \<open>Probability and data generation: the birthday problem\<close>

text \<open>
  \<^verbatim>\<open>
  days = np.arange(1,366)
  people = 2
  def birthday_sim(people):
      sims, unique_birthdays = 2000, 0
      for _ in range(sims):
          draw = np.random.choice(days, size=people, replace=True)
          if len(draw) == len(set(draw)):
              unique_birthdays += 1
      out = 1 - unique_birthdays / sims
      return out
  while (people > 0):
      prop_bds = birthday_sim(people)
      if prop_bds > 0.50:
          break
      people += 1
  \<close>
\<close>

definition days :: "nat list" where
  "days = [1..<366]"

definition birthday_sim :: "nat \<Rightarrow> (nat \<Rightarrow> nat \<Rightarrow> nat) \<Rightarrow> real" where
  "birthday_sim people raw =
     (let sims = 2000;
          unique_birthdays =
            fold (\<lambda>s unique_birthdays.
                    let draw = np_random_choice days people (raw s)
                    in if length draw = length (remdups draw) then unique_birthdays + 1
                       else unique_birthdays)
                 [0..<sims] (0 :: nat);
          out = 1 - real unique_birthdays / real sims
      in out)"

partial_function (option) birthday_loop ::
  "(nat \<Rightarrow> nat \<Rightarrow> nat \<Rightarrow> nat) \<Rightarrow> nat \<Rightarrow> nat \<Rightarrow> nat option" where
  "birthday_loop raw it people =
     (if people > 0 then
        (let prop_bds = birthday_sim people (raw it)
         in if prop_bds > 0.50 then Some people
            else birthday_loop raw (it + 1) (people + 1))
      else Some people)"

section \<open>Advanced applications: power analysis\<close>

text \<open>
  \<^verbatim>\<open>
  effect_size, sample_size, control_mean, control_sd = 0.05, 50, 1, 0.5     (Part I)
  sample_size, sims, effect_size = 50, 1000, 0.10                           (Part II)
  while 1:
      control_time_spent = np.random.normal(loc=control_mean, scale=control_sd,
                                            size=(sample_size, sims))
      treatment_time_spent = np.random.normal(loc=control_mean*(1+effect_size),
                                              scale=control_sd, size=(sample_size, sims))
      t, p = ttest_ind(treatment_time_spent, control_time_spent)
      power = (p < 0.05).sum()/sims
      if power >= 0.80:
          break
      else:
          sample_size += 10
  \<close>
  \<^verbatim>\<open>np.random.normal(loc, scale, size=(rows, cols))\<close> is \<open>loc + scale * z\<close> entry by entry,
  \<open>z i j\<close> being the generator's standard normal variate for row \<open>i\<close> and column \<open>j\<close>. The
  array is kept as the list of its columns, since \<^verbatim>\<open>ttest_ind\<close> works column by column
  (axis 0).

  \<^verbatim>\<open>scipy.stats.ttest_ind(a, b)\<close> is the two-sample t-test with pooled variance: per
  column, \<open>t = d / denom\<close> with \<open>d\<close> the difference of the means and \<open>denom\<close> the pooled
  standard error, and \<open>p = 2 * sf(|t|)\<close> with \<open>sf\<close> the survival function of Student's t
  distribution with \<open>n1 + n2 - 2\<close> degrees of freedom. The distribution function is
  SciPy's and is a parameter here. When \<open>denom\<close> is 0, \<open>t\<close> is infinite and \<open>p\<close> is 0 if
  the means differ, and \<open>t\<close> and \<open>p\<close> are NaN if they do not; with fewer than two
  observations in a sample the variance, and so \<open>p\<close>, is NaN.
\<close>

definition control_mean :: real where
  "control_mean = 1"

definition control_sd :: real where
  "control_sd = 0.5"

definition np_random_normal ::
  "real \<Rightarrow> real \<Rightarrow> nat \<Rightarrow> nat \<Rightarrow> (nat \<Rightarrow> nat \<Rightarrow> real) \<Rightarrow> real list list" where
  "np_random_normal loc scale rows cols z =
     map (\<lambda>j. map (\<lambda>i. loc + scale * z i j) [0..<rows]) [0..<cols]"

definition np_var1 :: "real list \<Rightarrow> real" where
  "np_var1 a = sum_list (map (\<lambda>x. (x - arith_mean a)\<^sup>2) a) / real (length a - 1)"

definition ttest_ind_column :: "(nat \<Rightarrow> real \<Rightarrow> real) \<Rightarrow> real list \<Rightarrow> real list \<Rightarrow> real option" where
  "ttest_ind_column sf a b =
     (let n1 = length a; n2 = length b
      in if n1 < 2 \<or> n2 < 2 then None
         else let v1 = np_var1 a; v2 = np_var1 b;
                  df = n1 + n2 - 2;
                  svar = (real (n1 - 1) * v1 + real (n2 - 1) * v2) / real df;
                  denom = sqrt (svar * (1 / real n1 + 1 / real n2));
                  d = arith_mean a - arith_mean b
              in if denom = 0 then (if d = 0 then None else Some 0)
                 else Some (2 * sf df \<bar>d / denom\<bar>))"

definition ttest_ind ::
  "(nat \<Rightarrow> real \<Rightarrow> real) \<Rightarrow> real list list \<Rightarrow> real list list \<Rightarrow> real option list" where
  "ttest_ind sf a b = map2 (ttest_ind_column sf) a b"

definition simulated_power ::
  "(nat \<Rightarrow> real \<Rightarrow> real) \<Rightarrow> (nat \<Rightarrow> nat \<Rightarrow> real) \<Rightarrow> (nat \<Rightarrow> nat \<Rightarrow> real) \<Rightarrow> nat \<Rightarrow> real" where
  "simulated_power sf control_z treatment_z sample_size =
     (let sims = 1000; effect_size = 0.10;
          control_time_spent =
            np_random_normal control_mean control_sd sample_size sims control_z;
          treatment_time_spent =
            np_random_normal (control_mean * (1 + effect_size)) control_sd sample_size sims
              treatment_z;
          p = ttest_ind sf treatment_time_spent control_time_spent;
          power = real (np_sum_bool (map (\<lambda>q. np_lt q 0.05) p)) / real sims
      in power)"

partial_function (option) power_loop ::
  "(nat \<Rightarrow> real \<Rightarrow> real) \<Rightarrow> (nat \<Rightarrow> nat \<Rightarrow> nat \<Rightarrow> real) \<Rightarrow> (nat \<Rightarrow> nat \<Rightarrow> nat \<Rightarrow> real)
     \<Rightarrow> nat \<Rightarrow> nat \<Rightarrow> nat option" where
  "power_loop sf control_z treatment_z it sample_size =
     (let power = simulated_power sf (control_z it) (treatment_z it) sample_size
      in if power \<ge> 0.80 then Some sample_size
         else power_loop sf control_z treatment_z (it + 1) (sample_size + 10))"

section \<open>Advanced applications: calculating the value of pi\<close>









section \<open>Advanced applications: modeling corn production and profits\<close>

text \<open>
  \<^verbatim>\<open>
  def corn_produced(rain, cost):
    mean_corn = 100 * cost**0.1 * rain**0.2
    corn = np.random.poisson(lam=mean_corn)
    return corn
  \<close>
  \<open>rain\<close> and \<open>cost\<close> are Python numbers: \<open>rain\<close> is a Python float
  (\<^verbatim>\<open>np.random.normal(50, 15)\<close> without a size) and \<open>cost\<close> is 5000 in the cells that
  define and call the two functions. A Python number is a float or a complex number: the
  power of a negative float with an exponent that is not an integer is the complex
  principal value \<open>|x|\<^sup>y * (cos (y * pi) + i * sin (y * pi))\<close>. \<open>py_pow\<close> is \<^verbatim>\<open>x ** y\<close>
  for a positive exponent that is not an integer, as 0.1 and 0.2 are; a product with a
  complex factor is complex.
\<close>

datatype py_num = PyFloat real | PyComplex complex

definition py_pow :: "real \<Rightarrow> real \<Rightarrow> py_num" where
  "py_pow x y = (if 0 \<le> x then PyFloat (x powr y) else PyComplex (rcis (\<bar>x\<bar> powr y) (y * pi)))"

definition to_complex :: "py_num \<Rightarrow> complex" where
  "to_complex v = (case v of PyFloat x \<Rightarrow> of_real x | PyComplex z \<Rightarrow> z)"

definition py_mul :: "py_num \<Rightarrow> py_num \<Rightarrow> py_num" where
  "py_mul a b =
     (case (a, b) of
        (PyFloat x, PyFloat y) \<Rightarrow> PyFloat (x * y)
      | _ \<Rightarrow> PyComplex (to_complex a * to_complex b))"

text \<open>
  \<^verbatim>\<open>np.random.poisson(lam)\<close> converts \<open>lam\<close> to a float64. A Python complex number has no
  such conversion and the call raises TypeError. It raises ValueError when \<open>lam < 0\<close>,
  and otherwise returns a count \<open>k\<close> the generator draws; with \<open>lam = 0\<close> the count is 0.

  The cell on optimizing costs passes NumPy integers as \<open>cost\<close>. The product is then a
  NumPy complex number when the rain is negative, which the sampler does convert, with
  the ComplexWarning that the notebook's output shows, by dropping the imaginary part.
  The functions are modelled here as the cells that define them call them, with a Python
  number as \<open>cost\<close>.
\<close>

definition np_random_poisson :: "py_num \<Rightarrow> nat \<Rightarrow> py_error + nat" where
  "np_random_poisson lam k =
     (case lam of
        PyComplex z \<Rightarrow> Inl TypeError
      | PyFloat l \<Rightarrow>
          if l < 0 then Inl ValueError
          else if l = 0 then Inr 0
          else Inr k)"

definition mean_corn :: "real \<Rightarrow> real \<Rightarrow> py_num" where
  "mean_corn rain cost = py_mul (py_mul (PyFloat 100) (py_pow cost 0.1)) (py_pow rain 0.2)"

definition corn_produced :: "real \<Rightarrow> real \<Rightarrow> nat \<Rightarrow> py_error + nat" where
  "corn_produced rain cost k = np_random_poisson (mean_corn rain cost) k"

text \<open>
  \<^verbatim>\<open>
  def corn_demanded(price):
      return 984 - 23 * price
  def profits(cost):
      rain = np.random.normal(50, 15)
      price = np.random.normal(40, 10)
      supply = corn_produced(rain, cost)
      demand = corn_demanded(price)
      equil_short = supply <= demand
      if equil_short ==True:
          tmp = price * supply - cost
          return tmp
      else:
          tmp2 = price * demand - cost
          return tmp2
  \<close>
  \<open>profits\<close> is defined two cells after \<open>corn_produced\<close> and finds it, when it runs, under
  its name among the notebook's globals; a name that is not bound raises NameError.
  \<open>z_rain\<close> and \<open>z_price\<close> are the generator's standard normal variates and \<open>k\<close> its
  Poisson count.
\<close>

record notebook_globals =
  global_corn_produced :: "(real \<Rightarrow> real \<Rightarrow> nat \<Rightarrow> py_error + nat) option"

definition corn_demanded :: "real \<Rightarrow> real" where
  "corn_demanded price = 984 - 23 * price"

definition profits :: "notebook_globals \<Rightarrow> real \<Rightarrow> real \<Rightarrow> real \<Rightarrow> nat \<Rightarrow> py_error + real" where
  "profits globals cost z_rain z_price k =
     (let rain = 50 + 15 * z_rain;
          price = 40 + 10 * z_price
      in case global_corn_produced globals of
           None \<Rightarrow> Inl NameError
         | Some callee \<Rightarrow>
             (case callee rain cost k of
                Inl e \<Rightarrow> Inl e
              | Inr supply \<Rightarrow>
                  let demand = corn_demanded price;
                      equil_short = real supply \<le> demand
                  in if equil_short then Inr (price * real supply - cost)
                     else Inr (price * demand - cost)))"

text \<open>The globals once the cell that defines \<open>corn_produced\<close> has run, and before.\<close>

definition globals_after_corn_production :: notebook_globals where
  "globals_after_corn_production = \<lparr>global_corn_produced = Some corn_produced\<rparr>"

definition globals_without_corn_production :: notebook_globals where
  "globals_without_corn_production = \<lparr>global_corn_produced = None\<rparr>"

text \<open>A Python number that is a real number: a float, or a complex number without imaginary part.\<close>

definition py_is_real :: "py_num \<Rightarrow> bool" where
  "py_is_real v = (case v of PyFloat x \<Rightarrow> True | PyComplex z \<Rightarrow> Im z = 0)"

section \<open>Probability and data generation: the sign-up and purchase flows\<close>

text \<open>
  The purchase flow reseeds the generator, so these exercises are written over the
  generator's state: \<open>rs_seed\<close> is \<^verbatim>\<open>np.random.seed\<close>, which sets the state the seed
  determines, and each sampler takes the state and returns one draw and the next state.
  What the samplers compute is NumPy's and is a parameter. A call with \<^verbatim>\<open>size=n\<close> makes
  \<open>n\<close> draws in a row, a call with an array parameter one draw per entry, in order.
\<close>

record 's np_random =
  rs_seed :: "nat \<Rightarrow> 's"
  rs_normal :: "real \<Rightarrow> real \<Rightarrow> 's \<Rightarrow> real \<times> 's"
  rs_poisson :: "real \<Rightarrow> 's \<Rightarrow> nat \<times> 's"
  rs_binomial :: "nat \<Rightarrow> real \<Rightarrow> 's \<Rightarrow> nat \<times> 's"
  rs_exponential :: "real \<Rightarrow> 's \<Rightarrow> real \<times> 's"

fun draw_each :: "('p \<Rightarrow> 's \<Rightarrow> 'a \<times> 's) \<Rightarrow> 'p list \<Rightarrow> 's \<Rightarrow> 'a list \<times> 's" where
  "draw_each d [] g = ([], g)"
| "draw_each d (p # ps) g =
     (let (x, g1) = d p g; (xs, g2) = draw_each d ps g1 in (x # xs, g2))"

definition draw_n :: "nat \<Rightarrow> ('s \<Rightarrow> 'a \<times> 's) \<Rightarrow> 's \<Rightarrow> 'a list \<times> 's" where
  "draw_n n d g = draw_each (\<lambda>_. d) (replicate n ()) g"

text \<open>
  \<^verbatim>\<open>
  hist_ctr, hist_sur, hight_rate = 0.01, 0.2, 1.2
  lambda_mean, lambda_std = 100000, 2000
  ct_rate = {'low':hist_ctr, 'high':np.random.uniform(low=hist_ctr, high=hight_rate*hist_ctr)}
  su_rate = {'low':hist_sur, 'high':np.random.uniform(low=hist_sur, high=hight_rate*hist_sur)}
  def get_signups(cost, ct_rate, su_rate, sims):
      lam = np.random.normal(loc=lambda_mean, scale=lambda_std, size=sims)
      impressions = np.random.poisson(lam)
      clicks = np.random.binomial(n=impressions, p = ct_rate[cost])
      signups = np.random.binomial(n=clicks, p = su_rate[cost])
      return signups
  \<close>
  The Poisson sampler raises ValueError on a negative mean and the binomial sampler on a
  probability outside \<open>[0, 1]\<close>, before they draw; a key that a dictionary does not hold
  raises KeyError.
\<close>

definition lambda_mean :: real where
  "lambda_mean = 100000"

definition lambda_std :: real where
  "lambda_std = 2000"

definition get_signups ::
  "'s np_random \<Rightarrow> string \<Rightarrow> (string \<rightharpoonup> real) \<Rightarrow> (string \<rightharpoonup> real) \<Rightarrow> nat \<Rightarrow> 's
     \<Rightarrow> (py_error + nat list) \<times> 's" where
  "get_signups lib cost ct_rate su_rate sims g =
     (let (lam, g1) = draw_n sims (rs_normal lib lambda_mean lambda_std) g
      in if list_ex (\<lambda>l. l < 0) lam then (Inl ValueError, g1)
         else let (impressions, g2) = draw_each (rs_poisson lib) lam g1
              in case ct_rate cost of
                   None \<Rightarrow> (Inl KeyError, g2)
                 | Some p_click \<Rightarrow>
                     if p_click < 0 \<or> 1 < p_click then (Inl ValueError, g2)
                     else let (clicks, g3) =
                                draw_each (\<lambda>n. rs_binomial lib n p_click) impressions g2
                          in case su_rate cost of
                               None \<Rightarrow> (Inl KeyError, g3)
                             | Some p_signup \<Rightarrow>
                                 if p_signup < 0 \<or> 1 < p_signup then (Inl ValueError, g3)
                                 else let (signups, g4) =
                                            draw_each (\<lambda>n. rs_binomial lib n p_signup) clicks g3
                                      in (Inr signups, g4))"

text \<open>
  \<^verbatim>\<open>
  purchase_value_mean = 1000
  hist_purchase_rate = 0.10
  def get_revenue(signups):
      rev = []
      np.random.seed(123)
      for s in signups:
          purchases = np.random.binomial(s, p=hist_purchase_rate)
          purchase_values = np.random.exponential(scale=purchase_value_mean, size=purchases)
          rev.append(purchase_values.sum())
      return rev
  \<close>
  \<open>revenue_loop\<close> is the \<^verbatim>\<open>for\<close> loop, from the state it is entered with.
\<close>

definition purchase_value_mean :: real where
  "purchase_value_mean = 1000"

definition hist_purchase_rate :: real where
  "hist_purchase_rate = 0.10"

fun revenue_loop :: "'s np_random \<Rightarrow> nat list \<Rightarrow> real list \<Rightarrow> 's \<Rightarrow> real list \<times> 's" where
  "revenue_loop lib [] rev' g = (rev', g)"
| "revenue_loop lib (s # signups) rev' g =
     (let (purchases, g1) = rs_binomial lib s hist_purchase_rate g;
          (purchase_values, g2) = draw_n purchases (rs_exponential lib purchase_value_mean) g1
      in revenue_loop lib signups (rev' @ [sum_list purchase_values]) g2)"

definition get_revenue :: "'s np_random \<Rightarrow> nat list \<Rightarrow> 's \<Rightarrow> real list \<times> 's" where
  "get_revenue lib signups g =
     (let rev' = [];
          g0 = rs_seed lib 123
      in revenue_loop lib signups rev' g0)"

text \<open>
  \<^verbatim>\<open>
  sims, cost_diff = 10000, 3000
  rev_low = get_revenue(get_signups('low', ct_rate, su_rate, sims))
  rev_high = get_revenue(get_signups('high', ct_rate, su_rate, sims))
  frac = ((np.array(rev_high) - np.array(rev_low)) < cost_diff).mean()
  \<close>
  The cell finds \<open>get_revenue\<close> and \<open>get_signups\<close> under their names among the notebook's
  globals, where the two cells before bound them. The difference of two arrays is taken
  entry by entry; an array of length 1 is stretched to the other's length, and other
  unequal lengths raise ValueError. The mean of a boolean array is the share of its true
  entries, NaN when the array is empty.
\<close>

record 's dgp_globals =
  global_get_signups ::
    "(string \<Rightarrow> (string \<rightharpoonup> real) \<Rightarrow> (string \<rightharpoonup> real) \<Rightarrow> nat \<Rightarrow> 's
       \<Rightarrow> (py_error + nat list) \<times> 's) option"
  global_get_revenue :: "(nat list \<Rightarrow> 's \<Rightarrow> real list \<times> 's) option"

definition np_sub_arrays :: "real list \<Rightarrow> real list \<Rightarrow> py_error + real list" where
  "np_sub_arrays a b =
     (if length a = length b then Inr (map2 (-) a b)
      else if length a = 1 then Inr (map (\<lambda>y. hd a - y) b)
      else if length b = 1 then Inr (map (\<lambda>x. x - hd b) a)
      else Inl ValueError)"

definition np_mean_bool :: "bool list \<Rightarrow> real option" where
  "np_mean_bool bs = (if bs = [] then None else Some (real (np_sum_bool bs) / real (length bs)))"

definition revenues ::
  "'s dgp_globals \<Rightarrow> (string \<rightharpoonup> real) \<Rightarrow> (string \<rightharpoonup> real) \<Rightarrow> 's
     \<Rightarrow> (py_error + real list \<times> real list) \<times> 's" where
  "revenues globals ct_rate su_rate g =
     (let sims = 10000
      in case global_get_revenue globals of
           None \<Rightarrow> (Inl NameError, g)
         | Some revenue \<Rightarrow>
             (case global_get_signups globals of
                None \<Rightarrow> (Inl NameError, g)
              | Some signups \<Rightarrow>
                  (case signups ''low'' ct_rate su_rate sims g of
                     (Inl e, g1) \<Rightarrow> (Inl e, g1)
                   | (Inr signups_low, g1) \<Rightarrow>
                       let (rev_low, g2) = revenue signups_low g1
                       in (case signups ''high'' ct_rate su_rate sims g2 of
                             (Inl e, g3) \<Rightarrow> (Inl e, g3)
                           | (Inr signups_high, g3) \<Rightarrow>
                               let (rev_high, g4) = revenue signups_high g3
                               in (Inr (rev_low, rev_high), g4)))))"

definition prob_losing_money ::
  "'s dgp_globals \<Rightarrow> (string \<rightharpoonup> real) \<Rightarrow> (string \<rightharpoonup> real) \<Rightarrow> 's
     \<Rightarrow> (py_error + real option) \<times> 's" where
  "prob_losing_money globals ct_rate su_rate g =
     (let cost_diff = 3000
      in case revenues globals ct_rate su_rate g of
           (Inl e, g') \<Rightarrow> (Inl e, g')
         | (Inr (rev_low, rev_high), g') \<Rightarrow>
             (case np_sub_arrays rev_high rev_low of
                Inl e \<Rightarrow> (Inl e, g')
              | Inr diff \<Rightarrow> (Inr (np_mean_bool (map (\<lambda>d. d < cost_diff) diff)), g')))"

text \<open>The notebook's globals once the sign-up and purchase cells have run, and before.\<close>

definition globals_after_purchase_flow :: "'s np_random \<Rightarrow> 's dgp_globals" where
  "globals_after_purchase_flow lib =
     \<lparr>global_get_signups = Some (get_signups lib), global_get_revenue = Some (get_revenue lib)\<rparr>"

definition globals_before_signup_flow :: "'s dgp_globals" where
  "globals_before_signup_flow = \<lparr>global_get_signups = None, global_get_revenue = None\<rparr>"

text \<open>
  A generator to run the functions on: its state counts the draws made since the seed,
  which is the state a seed sets, and every draw is read off the parameters: the mean
  or, for the binomial sampler, the number of trials.
\<close>

definition counting_generator :: "nat np_random" where
  "counting_generator =
     \<lparr>rs_seed = (\<lambda>seed. seed),
      rs_normal = (\<lambda>loc scale g. (loc, g + 1)),
      rs_poisson = (\<lambda>lam g. (nat \<lfloor>lam\<rfloor>, g + 1)),
      rs_binomial = (\<lambda>n p g. (n, g + 1)),
      rs_exponential = (\<lambda>scale g. (scale, g + 1))\<rparr>"

section \<open>The deck of cards: one list that several exercises shuffle\<close>

text \<open>
  \<^verbatim>\<open>from data.chap1_data import deck_of_cards\<close> binds the notebook's name
  \<open>deck_of_cards\<close> to the list that the module holds: the same object, not a copy. The
  state of a session is therefore a heap of list objects, the address of the module's
  list being \<open>chap1_data_deck\<close>, and the object the notebook's name is bound to. A card is
  a pair of a suit and a number.

  \<^verbatim>\<open>np.random.shuffle(x)\<close> reorders the list \<open>x\<close> in place; \<open>order\<close> is the permutation
  of the positions \<open>0, \<dots>, len x - 1\<close> that the generator picks.
\<close>

type_synonym card = "string \<times> nat"

type_synonym addr = nat

record session =
  heap :: "addr \<Rightarrow> card list"
  next_addr :: addr
  deck_of_cards :: addr

definition chap1_data_deck :: addr where
  "chap1_data_deck = 0"

definition import_deck_of_cards :: "session \<Rightarrow> session" where
  "import_deck_of_cards st = st\<lparr>deck_of_cards := chap1_data_deck\<rparr>"

definition np_random_shuffle :: "addr \<Rightarrow> nat list \<Rightarrow> session \<Rightarrow> session" where
  "np_random_shuffle x order st = st\<lparr>heap := (heap st)(x := map ((!) (heap st x)) order)\<rparr>"

text \<open>
  \<^verbatim>\<open>
  from data.chap1_data import deck_of_cards
  np.random.shuffle(deck_of_cards)
  card_choices_after_shuffle = deck_of_cards[:3]
  \<close>
\<close>

definition shuffling_a_deck :: "nat list \<Rightarrow> session \<Rightarrow> card list \<times> session" where
  "shuffling_a_deck order st =
     (let st1 = import_deck_of_cards st;
          st2 = np_random_shuffle (deck_of_cards st1) order st1;
          card_choices_after_shuffle = take 3 (heap st2 (deck_of_cards st2))
      in (card_choices_after_shuffle, st2))"

text \<open>
  \<^verbatim>\<open>
  from data.chap1_data import deck_of_cards
  n_sims, two_kind = 10000, 0
  for i in range(n_sims):
      np.random.shuffle(deck_of_cards)
      hand, cards_in_hand = deck_of_cards[0:5], {}
      for card in hand:
          cards_in_hand[card[1]] = cards_in_hand.get(card[1], 0) + 1
      highest_card = max(cards_in_hand.values())
      if highest_card>=2:
          two_kind += 1
  print(two_kind/n_sims)
  \<close>
  The dictionary is an association list in insertion order; \<^verbatim>\<open>max\<close> and \<^verbatim>\<open>min\<close> of
  an empty sequence raise ValueError. \<open>order i\<close> is the permutation picked in pass \<open>i\<close>.
\<close>

definition count_cards :: "card list \<Rightarrow> (nat \<times> nat) list" where
  "count_cards hand =
     fold (\<lambda>card cards_in_hand.
             AList.update (snd card)
               ((case map_of cards_in_hand (snd card) of None \<Rightarrow> 0 | Some c \<Rightarrow> c) + 1)
               cards_in_hand)
          hand []"

definition py_max :: "nat list \<Rightarrow> py_error + nat" where
  "py_max vs = (case vs of [] \<Rightarrow> Inl ValueError | v # vs' \<Rightarrow> Inr (fold max vs' v))"

definition py_min :: "nat list \<Rightarrow> py_error + nat" where
  "py_min vs = (case vs of [] \<Rightarrow> Inl ValueError | v # vs' \<Rightarrow> Inr (fold min vs' v))"

fun two_kind_loop ::
  "(nat \<Rightarrow> nat list) \<Rightarrow> nat list \<Rightarrow> nat \<Rightarrow> session \<Rightarrow> (py_error + nat) \<times> session" where
  "two_kind_loop order [] two_kind st = (Inr two_kind, st)"
| "two_kind_loop order (i # rest) two_kind st =
     (let st1 = np_random_shuffle (deck_of_cards st) (order i) st;
          hand = take 5 (heap st1 (deck_of_cards st1));
          cards_in_hand = count_cards hand
      in case py_max (map snd cards_in_hand) of
           Inl e \<Rightarrow> (Inl e, st1)
         | Inr highest_card \<Rightarrow>
             two_kind_loop order rest
               (if highest_card \<ge> 2 then two_kind + 1 else two_kind) st1)"

definition two_of_a_kind :: "(nat \<Rightarrow> nat list) \<Rightarrow> session \<Rightarrow> (py_error + real) \<times> session" where
  "two_of_a_kind order st =
     (let n_sims = 10000;
          st0 = import_deck_of_cards st
      in case two_kind_loop order [0..<n_sims] 0 st0 of
           (Inl e, st') \<Rightarrow> (Inl e, st')
         | (Inr two_kind, st') \<Rightarrow> (Inr (real two_kind / real n_sims), st'))"

text \<open>
  \<^verbatim>\<open>
  n_sims, full_house, deck_of_cards = 50000, 0, deck_of_cards.copy()
  for i in range(n_sims):
      np.random.shuffle(deck_of_cards)
      hand, cards_in_hand = deck_of_cards[0:5], {}
      for card in hand:
          cards_in_hand[card[1]] = cards_in_hand.get(card[1], 0) + 1
      condition = (max(cards_in_hand.values()) ==3) & (min(cards_in_hand.values())==2)
      if  condition == True:
          full_house += 1
  print(full_house/n_sims)
  \<close>
  \<^verbatim>\<open>deck_of_cards.copy()\<close> is a new list object with the entries of the list the name is
  bound to, and the assignment binds the name to it.
\<close>

definition list_copy :: "addr \<Rightarrow> session \<Rightarrow> addr \<times> session" where
  "list_copy x st =
     (next_addr st, st\<lparr>heap := (heap st)(next_addr st := heap st x),
                        next_addr := next_addr st + 1\<rparr>)"

fun full_house_loop ::
  "(nat \<Rightarrow> nat list) \<Rightarrow> nat list \<Rightarrow> nat \<Rightarrow> session \<Rightarrow> (py_error + nat) \<times> session" where
  "full_house_loop order [] full_house st = (Inr full_house, st)"
| "full_house_loop order (i # rest) full_house st =
     (let st1 = np_random_shuffle (deck_of_cards st) (order i) st;
          hand = take 5 (heap st1 (deck_of_cards st1));
          cards_in_hand = count_cards hand
      in case py_max (map snd cards_in_hand) of
           Inl e \<Rightarrow> (Inl e, st1)
         | Inr highest \<Rightarrow>
             (case py_min (map snd cards_in_hand) of
                Inl e \<Rightarrow> (Inl e, st1)
              | Inr lowest \<Rightarrow>
                  let condition = (highest = 3 \<and> lowest = 2)
                  in full_house_loop order rest
                       (if condition then full_house + 1 else full_house) st1))"

definition full_house :: "(nat \<Rightarrow> nat list) \<Rightarrow> session \<Rightarrow> (py_error + real) \<times> session" where
  "full_house order st =
     (let n_sims = 50000;
          (copy, st0) = list_copy (deck_of_cards st) st;
          st1 = st0\<lparr>deck_of_cards := copy\<rparr>
      in case full_house_loop order [0..<n_sims] 0 st1 of
           (Inl e, st') \<Rightarrow> (Inl e, st')
         | (Inr full_house, st') \<Rightarrow> (Inr (real full_house / real n_sims), st'))"

text \<open>
  The generator's promise: each of the 10000 permutations it picks for a list of \<open>n\<close>
  entries (one per pass of the two of a kind loop) is a permutation of the positions
  \<open>0, \<dots>, n - 1\<close>.
\<close>

definition valid_orders :: "nat \<Rightarrow> (nat \<Rightarrow> nat list) \<Rightarrow> bool" where
  "valid_orders n order = list_all (\<lambda>i. mset (order i) = mset [0..<n]) [0..<10000]"

text \<open>
  A session to run the exercises on: the module's list holds the three cards that the
  first notebook prints.
\<close>

definition three_cards :: session where
  "three_cards =
     \<lparr>heap = (\<lambda>_. [])(chap1_data_deck := [(''Spade'', 11), (''Heart'', 10), (''Diamond'', 1)]),
      next_addr = 1, deck_of_cards = chap1_data_deck\<rparr>"

chapter \<open>Properties\<close>

section \<open>Loops that append one result per iteration\<close>

lemma fold_append_map: "fold (\<lambda>i acc. acc @ [f i]) js acc = acc @ map f js"
  by (induction js arbitrary: acc) simp_all

lemma those_map_Some: "those (map (\<lambda>i. Some (g i)) js) = Some (map g js)"
  by (induction js) simp_all

section \<open>The jackknife estimate of the mean is the sample mean\<close>

lemma jk_sample_nths: "jk_sample wl i = nths wl {j. j \<noteq> i}"
  by (simp add: jk_sample_def nths_def)

lemma jk_sample_take_drop:
  assumes "i < length wl"
  shows "jk_sample wl i = take i wl @ drop (Suc i) wl"
proof -
  have "wl = take i wl @ (wl ! i) # drop (Suc i) wl"
    using assms by (simp add: id_take_nth_drop)
  then have "nths wl {j. j \<noteq> i} = nths (take i wl @ (wl ! i) # drop (Suc i) wl) {j. j \<noteq> i}"
    by simp
  also have "\<dots> = take i wl @ drop (Suc i) wl"
    using assms by (simp add: nths_append nths_Cons nths_all min_def)
  finally show ?thesis by (simp add: jk_sample_nths)
qed

lemma jk_sample_length: "i < length wl \<Longrightarrow> length (jk_sample wl i) = length wl - 1"
  by (simp add: jk_sample_take_drop)

lemma jk_sample_sum:
  assumes "i < length wl"
  shows "sum_list (jk_sample wl i) = sum_list wl - wl ! i"
proof -
  have "sum_list wl = sum_list (take i wl @ (wl ! i) # drop (Suc i) wl)"
    using assms by (simp add: id_take_nth_drop [symmetric])
  then show ?thesis using assms by (simp add: jk_sample_take_drop)
qed

lemma jk_means_sum:
  fixes wl :: "real list"
  assumes "2 \<le> length wl"
  shows "sum_list (map (\<lambda>i. (sum_list wl - wl ! i) / real (length wl - 1)) [0..<length wl])
         = sum_list wl"
proof -
  let ?n = "length wl" and ?S = "sum_list wl"
  have "sum_list (map (\<lambda>i. (?S - wl ! i) / real (?n - 1)) [0..<?n])
        = (\<Sum>i = 0..<?n. (?S - wl ! i) / real (?n - 1))"
    by (simp add: interv_sum_list_conv_sum_set_nat)
  also have "\<dots> = (\<Sum>i = 0..<?n. ?S - wl ! i) / real (?n - 1)"
    by (simp add: sum_divide_distrib)
  also have "(\<Sum>i = 0..<?n. ?S - wl ! i) = real ?n * ?S - (\<Sum>i = 0..<?n. wl ! i)"
    by (simp add: sum_subtractf)
  also have "(\<Sum>i = 0..<?n. wl ! i) = ?S"
    by (simp add: sum_list_sum_nth)
  also have "(real ?n * ?S - ?S) / real (?n - 1) = ?S"
  proof -
    have "real ?n * ?S - ?S = real (?n - 1) * ?S"
      using assms by (simp add: algebra_simps)
    then show ?thesis using assms by simp
  qed
  finally show ?thesis .
qed

lemma jackknife_mean_unfold:
  "jackknife_mean wl = np_mean_arr (map (\<lambda>i. np_mean (jk_sample wl i)) [0..<length wl])"
  by (simp add: jackknife_mean_def fold_append_map)

text \<open>
  Claim C4. For every sample of at least two numbers, the jackknife estimate of the basic
  jackknife exercise is the mean of the \<open>n\<close> leave-one-out means, the \<open>i\<close>-th leave-one-out
  sample being the sample without its \<open>i\<close>-th observation, and it equals the arithmetic
  mean of the original sample exactly.
\<close>

theorem jackknife_mean_is_sample_mean:
  assumes "2 \<le> length wl"
  shows "jackknife_mean wl
           = np_mean_arr (map (\<lambda>i. np_mean (take i wl @ drop (Suc i) wl)) [0..<length wl])
         \<and> jackknife_mean wl = Some (sum_list wl / real (length wl))"
proof
  let ?n = "length wl"
  have ne: "wl \<noteq> []" using assms by auto
  have "map (\<lambda>i. np_mean (jk_sample wl i)) [0..<?n]
        = map (\<lambda>i. np_mean (take i wl @ drop (Suc i) wl)) [0..<?n]"
    by (rule map_cong [OF refl]) (simp add: jk_sample_take_drop)
  then show "jackknife_mean wl
      = np_mean_arr (map (\<lambda>i. np_mean (take i wl @ drop (Suc i) wl)) [0..<?n])"
    by (simp only: jackknife_mean_unfold)
  have each: "map (\<lambda>i. np_mean (jk_sample wl i)) [0..<?n]
              = map (\<lambda>i. Some ((sum_list wl - wl ! i) / real (?n - 1))) [0..<?n]"
  proof (rule map_cong [OF refl])
    fix i assume "i \<in> set [0..<?n]"
    then have i: "i < ?n" by simp
    then have "length (jk_sample wl i) = ?n - 1" by (rule jk_sample_length)
    moreover from this assms have "jk_sample wl i \<noteq> []" by auto
    ultimately show "np_mean (jk_sample wl i) = Some ((sum_list wl - wl ! i) / real (?n - 1))"
      using i by (simp add: np_mean_def jk_sample_sum)
  qed
  have "jackknife_mean wl = np_mean_arr (map (\<lambda>i. np_mean (jk_sample wl i)) [0..<?n])"
    by (rule jackknife_mean_unfold)
  also have "\<dots> = np_mean (map (\<lambda>i. (sum_list wl - wl ! i) / real (?n - 1)) [0..<?n])"
    by (simp only: each np_mean_arr_def those_map_Some option.case)
  also have "\<dots> = Some (sum_list wl / real ?n)"
    using ne jk_means_sum [OF assms] by (simp add: np_mean_def)
  finally show "jackknife_mean wl = Some (sum_list wl / real ?n)" .
qed

theorem jackknife_mean_is_sample_mean_witness:
  "2 \<le> length [1, 2, 4 :: real] \<and> jackknife_mean [1, 2, 4] = Some (7 / 3)"
  using jackknife_mean_is_sample_mean [of "[1, 2, 4]"] by (simp add: np_mean_def np_mean_arr_def)

section \<open>The simple bootstrap\<close>

lemma np_mean_nonempty: "xs \<noteq> [] \<Longrightarrow> np_mean xs = Some (arith_mean xs)"
  by (simp add: np_mean_def arith_mean_def)

lemma np_random_choice_length: "length (np_random_choice a sz raw) = sz"
  by (simp add: np_random_choice_def)

lemma np_random_choice_subset:
  "set (np_random_choice a (length a) raw) \<subseteq> set a"
  by (cases "a = []") (auto simp: np_random_choice_def)

lemma np_percentile_1000_low:
  assumes "length xs = 1000"
  shows "np_percentile xs 2.5 = Inr (sort xs ! 24 * (1 - 0.975) + sort xs ! 25 * 0.975)"
proof -
  have ne: "xs \<noteq> []" using assms by auto
  have fl: "\<lfloor>24975 / 1000 :: real\<rfloor> = 24" by simp
  show ?thesis
    using ne by (simp add: np_percentile_def assms Let_def fl)
qed

lemma np_percentile_1000_high:
  assumes "length xs = 1000"
  shows "np_percentile xs 97.5 = Inr (sort xs ! 974 * (1 - 0.025) + sort xs ! 975 * 0.025)"
proof -
  have ne: "xs \<noteq> []" using assms by auto
  have fl: "\<lfloor>974025 / 1000 :: real\<rfloor> = 974" by simp
  show ?thesis
    using ne by (simp add: np_percentile_def assms Let_def fl)
qed

lemma map_const_replicate: "map (\<lambda>_. c) xs = replicate (length xs) c"
  by (induction xs) simp_all

lemma valid_permutations_const:
  "mset p = mset [0..<n] \<Longrightarrow> valid_permutations n (\<lambda>_. p)"
  by (simp add: valid_permutations_def list_all_iff)

lemma bootstrap_unfold:
  "bootstrap wl raw =
     (case first_error (map (np_percentile_arr
               (map (\<lambda>i. np_mean (np_random_choice wl (length wl) (raw i))) [0..<1000]))
               [2.5, 97.5]) of
        Inl e \<Rightarrow> Inl e
      | Inr boot_95_ci \<Rightarrow>
          Inr (np_mean_arr (map (\<lambda>i. np_mean (np_random_choice wl (length wl) (raw i)))
                 [0..<1000]), boot_95_ci))"
  unfolding bootstrap_def Let_def fold_append_map append_Nil by simp

text \<open>
  Claim C1. In the simple bootstrap, for every non-empty sample and every output of the
  generator, each of the 1000 resamples has the length of the sample and holds entries of
  the sample only (drawn with replacement: an entry may repeat); the statistic recorded
  for a resample is its arithmetic mean; the bootstrapped mean is the arithmetic mean of
  the 1000 resample means; and the 95% CI is the pair of their 2.5th and 97.5th
  percentiles, which are the values at positions 24.975 and 974.025 of the sorted means.
  No call fails.
\<close>

theorem bootstrap_mean_and_ci:
  fixes wl :: "real list" and raw :: "nat \<Rightarrow> nat \<Rightarrow> nat"
  assumes "wl \<noteq> []"
  defines "resample \<equiv> \<lambda>i. np_random_choice wl (length wl) (raw i)"
  defines "means \<equiv> map (\<lambda>i. arith_mean (resample i)) [0..<1000]"
  shows "(\<forall>i. length (resample i) = length wl \<and> set (resample i) \<subseteq> set wl)
       \<and> bootstrap wl raw =
           Inr (Some (arith_mean means),
                [Some (sort means ! 24 * (1 - 0.975) + sort means ! 25 * 0.975),
                 Some (sort means ! 974 * (1 - 0.025) + sort means ! 975 * 0.025)])
       \<and> np_percentile means 2.5
           = Inr (sort means ! 24 * (1 - 0.975) + sort means ! 25 * 0.975)
       \<and> np_percentile means 97.5
           = Inr (sort means ! 974 * (1 - 0.025) + sort means ! 975 * 0.025)"
proof -
  have len: "length means = 1000" by (simp add: means_def)
  have ne: "resample i \<noteq> []" for i
    using assms(1) np_random_choice_length [of wl "length wl" "raw i"]
    by (auto simp: resample_def)
  have ms: "map (\<lambda>i. np_mean (np_random_choice wl (length wl) (raw i))) [0..<1000]
            = map (\<lambda>i. Some (arith_mean (resample i))) [0..<1000]"
    using ne by (simp add: np_mean_nonempty resample_def)
  have th: "those (map (\<lambda>i. Some (arith_mean (resample i))) [0..<1000]) = Some means"
    unfolding means_def by (rule those_map_Some)
  have mne: "means \<noteq> []" using len by auto
  have b: "bootstrap wl raw =
           Inr (Some (arith_mean means),
                [Some (sort means ! 24 * (1 - 0.975) + sort means ! 25 * 0.975),
                 Some (sort means ! 974 * (1 - 0.025) + sort means ! 975 * 0.025)])"
    unfolding bootstrap_unfold ms
    by (simp only: np_mean_arr_def np_percentile_arr_def th option.case
          np_mean_nonempty [OF mne] list.map np_percentile_1000_low [OF len]
          np_percentile_1000_high [OF len] sum.case first_error.simps)
  show ?thesis
    using b np_percentile_1000_low [OF len] np_percentile_1000_high [OF len]
    by (simp add: resample_def np_random_choice_length np_random_choice_subset)
qed

theorem bootstrap_mean_and_ci_witness:
  "[10, 9 :: real] \<noteq> [] \<and> bootstrap [10, 9] (\<lambda>i k. 1) = Inr (Some 9, [Some 9, Some 9])"
proof -
  have m: "map (\<lambda>i. arith_mean (np_random_choice [10, 9 :: real] (length [10, 9 :: real]) 
                 ((\<lambda>i k. 1) i))) [0..<1000] = replicate 1000 9"
    by (simp add: np_random_choice_def arith_mean_def map_const_replicate upt_rec [of 0 2] upt_rec [of 1 2])
  show ?thesis
    using bootstrap_mean_and_ci [of "[10, 9]" "\<lambda>i k. 1"]
    unfolding m
    by (simp add: arith_mean_def sum_list_replicate)
qed

section \<open>Rounding to float64\<close>

lemma float64_exponent_eq:
  assumes "- 1022 \<le> e" "e \<le> 1023" "power_int 2 e \<le> \<bar>x\<bar>" "\<bar>x\<bar> < power_int 2 (e + 1)"
  shows "float64_exponent x = e"
  unfolding float64_exponent_def
proof (rule Max_eqI)
  have "finite {e \<in> {- 1022..1023 :: int}. power_int 2 e \<le> \<bar>x\<bar>}"
    by (rule finite_subset [of _ "{- 1022..1023}"]) auto
  then show "finite (insert (- 1022) {e \<in> {- 1022..1023}. power_int 2 e \<le> \<bar>x\<bar>})"
    by (rule finite.insertI)
  show "e \<in> insert (- 1022) {e \<in> {- 1022..1023}. power_int 2 e \<le> \<bar>x\<bar>}"
    using assms by simp
  fix y assume "y \<in> insert (- 1022) {e \<in> {- 1022..1023}. power_int 2 e \<le> \<bar>x\<bar>}"
  then consider "y = - 1022" | "power_int 2 y \<le> \<bar>x\<bar>" by auto
  then show "y \<le> e"
  proof cases
    case 1
    with assms show ?thesis by simp
  next
    case 2
    with assms(4) have "power_int (2 :: real) y < power_int 2 (e + 1)" by simp
    have "y < e + 1"
    proof (rule ccontr)
      assume "\<not> y < e + 1"
      then have "power_int (2 :: real) (e + 1) \<le> power_int 2 y"
        by (intro power_int_increasing) simp_all
      with \<open>power_int (2 :: real) y < power_int 2 (e + 1)\<close> show False by simp
    qed
    then show ?thesis by simp
  qed
qed

lemma float64_exponent_small:
  assumes "\<bar>x\<bar> < power_int 2 (- 1022)"
  shows "float64_exponent x = - 1022"
proof -
  have "{e \<in> {- 1022..1023}. power_int 2 e \<le> \<bar>x\<bar>} = {}"
  proof (rule ccontr)
    assume "{e \<in> {- 1022..1023}. power_int 2 e \<le> \<bar>x\<bar>} \<noteq> {}"
    then obtain e :: int where e: "- 1022 \<le> e" "power_int 2 e \<le> \<bar>x\<bar>" by auto
    have "power_int (2 :: real) (- 1022) \<le> power_int 2 e"
      using e(1) by (intro power_int_increasing) simp_all
    with e(2) assms show False by simp
  qed
  then show ?thesis by (simp only: float64_exponent_def Max_singleton)
qed

lemma round_half_even_le:
  assumes "y \<le> of_int N"
  shows "round_half_even y \<le> N"
proof -
  have "\<lfloor>y\<rfloor> \<le> N" using assms by (simp add: floor_le_iff)
  moreover have "\<lfloor>y\<rfloor> = N \<Longrightarrow> y - of_int \<lfloor>y\<rfloor> = 0"
    using assms by linarith
  ultimately show ?thesis
    unfolding round_half_even_def Let_def
    by (cases "\<lfloor>y\<rfloor> = N") auto
qed

lemma round_half_even_ge:
  assumes "of_int N \<le> y"
  shows "N \<le> round_half_even y"
proof -
  have "N \<le> \<lfloor>y\<rfloor>" using assms by (simp add: le_floor_iff)
  then show ?thesis
    unfolding round_half_even_def Let_def by auto
qed

lemma round_half_even_abs_le:
  assumes "\<bar>y\<bar> \<le> of_int N"
  shows "\<bar>round_half_even y\<bar> \<le> N"
proof -
  have "round_half_even y \<le> N"
    using assms by (intro round_half_even_le) simp
  moreover have "- N \<le> round_half_even y"
    using assms by (intro round_half_even_ge) simp
  ultimately show ?thesis by simp
qed

lemma round_half_even_of_int [simp]: "round_half_even (of_int n) = n"
  by (simp add: round_half_even_def)

lemma two_powi_pos [simp]: "0 < power_int (2 :: real) e"
  by (simp add: power_int_def)

lemma largest_float64_ge: "power_int 2 1023 \<le> largest_float64"
proof -
  have "(2 :: real) ^ 1023 = 2 ^ 52 * 2 ^ 971" by (simp flip: power_add)
  also have "\<dots> \<le> (2 ^ 53 - 1) * 2 ^ 971"
    by (intro mult_right_mono) simp_all
  finally show ?thesis by (simp add: largest_float64_def)
qed

lemma rounded_finite:
  assumes "e \<le> 1022" "\<bar>x\<bar> \<le> power_int 2 (e + 1)"
  shows "\<bar>of_int (round_half_even (x / power_int 2 (e - 52))) * power_int 2 (e - 52)\<bar>
           \<le> largest_float64"
proof -
  let ?u = "power_int (2 :: real) (e - 52)"
  have split: "power_int (2 :: real) (e + 1) = 2 ^ 53 * ?u"
    using power_int_add [of "2 :: real" 53 "e - 52"] by (simp add: add.commute)
  have "\<bar>x / ?u\<bar> \<le> 2 ^ 53"
    using assms(2) unfolding split by (simp add: field_simps abs_mult)
  then have "\<bar>x / ?u\<bar> \<le> of_int (2 ^ 53)" by simp
  then have "\<bar>round_half_even (x / ?u)\<bar> \<le> 2 ^ 53" by (rule round_half_even_abs_le)
  then have "\<bar>of_int (round_half_even (x / ?u)) :: real\<bar> \<le> 2 ^ 53"
    by (metis of_int_abs of_int_le_iff of_int_numeral of_int_power)
  then have "\<bar>of_int (round_half_even (x / ?u)) * ?u\<bar> \<le> 2 ^ 53 * ?u"
    by (simp add: abs_mult)
  also have "\<dots> = power_int 2 (e + 1)" by (simp only: split)
  also have "\<dots> \<le> power_int 2 1023"
    using assms(1) by (intro power_int_increasing) simp_all
  also have "\<dots> \<le> largest_float64" by (rule largest_float64_ge)
  finally show ?thesis .
qed

lemma round_float64_normal:
  assumes "- 1022 \<le> e" "e \<le> 1022" "power_int 2 e \<le> \<bar>x\<bar>" "\<bar>x\<bar> < power_int 2 (e + 1)"
  shows "round_float64 x
           = Finite (of_int (round_half_even (x / power_int 2 (e - 52))) * power_int 2 (e - 52))"
proof -
  have ex: "float64_exponent x = e"
    using assms by (intro float64_exponent_eq) simp_all
  have "\<bar>of_int (round_half_even (x / power_int 2 (e - 52))) * power_int 2 (e - 52)\<bar>
           \<le> largest_float64"
    using assms by (intro rounded_finite) simp_all
  then show ?thesis
    unfolding round_float64_def ex Let_def by (simp add: abs_le_iff)
qed

lemma round_float64_subnormal:
  assumes "\<bar>x\<bar> < power_int 2 (- 1022)"
  shows "round_float64 x
           = Finite (of_int (round_half_even (x / power_int 2 (- 1074))) * power_int 2 (- 1074))"
proof -
  have ex: "float64_exponent x = - 1022"
    using assms by (rule float64_exponent_small)
  have "\<bar>of_int (round_half_even (x / power_int 2 (- 1022 - 52))) * power_int 2 (- 1022 - 52)\<bar>
           \<le> largest_float64"
    using assms by (intro rounded_finite) (simp_all add: power_int_add)
  then show ?thesis
    unfolding round_float64_def ex Let_def by (simp add: abs_le_iff)
qed

lemma largest_float64_pos: "0 < largest_float64"
  using largest_float64_ge two_powi_pos [of 1023] by linarith

lemma round_float64_0 [simp]: "round_float64 0 = Finite 0"
  using largest_float64_pos by (simp add: round_float64_def round_half_even_def)











lemma f64_ge_NaN [simp]: "f64_ge x NaN = False" "f64_ge NaN x = False"
  by (simp_all add: f64_ge_def f64_le_def split: float64.splits)

lemma f64_add_NaN [simp]: "f64_add NaN x = NaN" "f64_add x NaN = NaN"
  by (simp_all add: f64_add_def split: float64.splits)

lemma mean_float64_Nil: "mean_float64 [] = NaN"
  by (simp add: mean_float64_def f64_div_count_def sum_onto_def pairwise_sum.simps)

lemma mean_float64_short:
  "length a < 8 \<Longrightarrow>
   mean_float64 a = f64_div_count (fold (\<lambda>x res. f64_add res (Finite x)) a (Finite 0)) (length a)"
  by (simp add: mean_float64_def pairwise_sum.simps sum_onto_def)

section \<open>The permutation tests\<close>

lemma valid_permutationsD:
  assumes "valid_permutations n permutation" "i < reps"
  shows "mset (permutation i) = mset [0..<n]"
  using assms by (simp add: valid_permutations_def list_all_iff)

lemma valid_permutation_bound:
  assumes "valid_permutations n permutation" "i < reps" "j \<in> set (permutation i)"
  shows "j < n"
proof -
  have "set (permutation i) = set [0..<n]"
    using valid_permutationsD [OF assms(1,2)] by (rule mset_eq_setD)
  with assms(3) show ?thesis by simp
qed

lemma fancy_index_in_range:
  assumes "\<And>row j. row \<in> set idx \<Longrightarrow> j \<in> set row \<Longrightarrow> j < length a"
  shows "fancy_index a idx = Inr (map (map ((!) a)) idx)"
  using assms by (simp add: fancy_index_def list_all_iff)

lemma permuted_datasets_valid:
  assumes "valid_permutations (length A + length B) permutation"
  shows "permuted_datasets A B permutation =
           Inr (map (\<lambda>i. permuted_A A B (permutation i)) [0..<reps],
                map (\<lambda>i. permuted_B A B (permutation i)) [0..<reps])"
proof -
  have a: "fancy_index (A @ B) (map (take (length A)) (map permutation [0..<reps]))
           = Inr (map (map ((!) (A @ B))) (map (take (length A)) (map permutation [0..<reps])))"
    by (rule fancy_index_in_range)
       (auto dest!: in_set_takeD intro: valid_permutation_bound [OF assms])
  have b: "fancy_index (A @ B) (map (drop (length A)) (map permutation [0..<reps]))
           = Inr (map (map ((!) (A @ B))) (map (drop (length A)) (map permutation [0..<reps])))"
    by (rule fancy_index_in_range)
       (auto dest!: in_set_dropD intro: valid_permutation_bound [OF assms])
  show ?thesis
    unfolding permuted_datasets_def Let_def
    by (simp only: a b sum.case) (simp add: o_def permuted_A_def permuted_B_def)
qed

lemma map2_maps: "map2 f (map g xs) (map h xs) = map (\<lambda>x. f (g x) (h x)) xs"
  by (induction xs) simp_all

lemma np_sum_bool_map: "np_sum_bool (map P xs) = length (filter P xs)"
  by (simp add: np_sum_bool_def filter_map o_def)

lemma p_val_count:
  assumes "valid_permutations (length A + length B) permutation"
  shows "p_val A B permutation =
           Inr (2 * real (length (filter
                  (\<lambda>i. f64_ge (difference_in_means (permuted_A A B (permutation i))
                                                    (permuted_B A B (permutation i)))
                              (f64_abs (difference_in_means A B))) [0..<1000])) / 1000)"
proof -
  have "map2 f64_sub
          (map mean_float64 (map (\<lambda>i. permuted_A A B (permutation i)) [0..<reps]))
          (map mean_float64 (map (\<lambda>i. permuted_B A B (permutation i)) [0..<reps]))
        = map (\<lambda>i. difference_in_means (permuted_A A B (permutation i))
                                         (permuted_B A B (permutation i))) [0..<reps]"
    by (simp add: o_def map2_maps difference_in_means_def)
  then show ?thesis
    unfolding p_val_def permuted_datasets_valid [OF assms]
    by (simp only: sum.case prod.case Let_def flip: difference_in_means_def)
       (simp add: o_def np_sum_bool_map p_value_def reps_def del: upt.simps)
qed

lemma difference_in_means_empty:
  "difference_in_means [] b = NaN" "difference_in_means a [] = NaN"
  by (simp_all add: difference_in_means_def mean_float64_Nil f64_sub_def f64_neg_def)

text \<open>
  Claim C2. In the difference-of-means permutation test, for every pair of arrays and
  every sequence of 1000 permutations of their concatenation, the p-value is 2 times the
  number of permuted datasets whose difference in means (mean of the A part minus mean
  of the B part) is at least the absolute value of the observed difference in means,
  divided by 1000. The means, the differences and the comparison are the float64 ones
  the cell computes. With an empty array the means are NaN, no comparison holds and the
  p-value is 0.

  The rounding matters when differences tie. The arrays \<open>[0.1, 0.2, 0.3]\<close> and \<open>[0.0]\<close>
  (as float64 numbers), permuted every time to \<open>[0.3, 0.2, 0.1]\<close> and \<open>[0.0]\<close>, have the
  same exact means before and after, but the float64 mean of the permuted A part is
  0.19999999999999998, below the 0.20000000000000004 of the original, so that nothing is
  counted and the p-value is 0.
\<close>

theorem p_val_formula:
  assumes "valid_permutations (length A + length B) permutation"
  shows "p_val A B permutation =
           Inr (2 * real (length (filter
                  (\<lambda>i. f64_ge (difference_in_means (permuted_A A B (permutation i))
                                                    (permuted_B A B (permutation i)))
                              (f64_abs (difference_in_means A B))) [0..<1000])) / 1000)
       \<and> (A = [] \<or> B = [] \<longrightarrow> p_val A B permutation = Inr 0)"
proof (rule conjI)
  show main: "p_val A B permutation =
           Inr (2 * real (length (filter
                  (\<lambda>i. f64_ge (difference_in_means (permuted_A A B (permutation i))
                                                    (permuted_B A B (permutation i)))
                              (f64_abs (difference_in_means A B))) [0..<1000])) / 1000)"
    by (rule p_val_count [OF assms])
  show "A = [] \<or> B = [] \<longrightarrow> p_val A B permutation = Inr 0"
  proof
    assume "A = [] \<or> B = []"
    then have "difference_in_means A B = NaN"
      by (auto simp: difference_in_means_empty)
    then show "p_val A B permutation = Inr 0"
      unfolding main by (simp add: f64_abs_def)
  qed
qed

text \<open>
  The float64 numbers 0.1, 0.2 and 0.3 are \<open>3602879701896397 / 2 ^ 55\<close>,
  \<open>3602879701896397 / 2 ^ 54\<close> and \<open>5404319552844595 / 2 ^ 54\<close>. Added from 0.1 to 0.3
  their float64 sum is 0.6000000000000001 and the mean 0.20000000000000004
  (\<open>7205759403792795 / 2 ^ 55\<close>); added from 0.3 to 0.1 the sum is 0.6 and the mean
  0.19999999999999998 (\<open>7205759403792793 / 2 ^ 55\<close>).
\<close>

lemma fl_a: "round_float64 (3602879701896397 / 36028797018963968) = Finite (3602879701896397 / 36028797018963968)"
  using round_float64_normal [of "- 4" "3602879701896397 / 36028797018963968"] by (simp add: round_half_even_def)

lemma fl_b: "round_float64 (3602879701896397 / 18014398509481984) = Finite (3602879701896397 / 18014398509481984)"
  using round_float64_normal [of "- 3" "3602879701896397 / 18014398509481984"] by (simp add: round_half_even_def)

lemma fl_c: "round_float64 (5404319552844595 / 18014398509481984) = Finite (5404319552844595 / 18014398509481984)"
  using round_float64_normal [of "- 2" "5404319552844595 / 18014398509481984"] by (simp add: round_half_even_def)

lemma fl_a_b: "round_float64 (10808639105689191 / 36028797018963968) = Finite (1351079888211149 / 4503599627370496)"
  using round_float64_normal [of "- 2" "10808639105689191 / 36028797018963968"] by (simp add: round_half_even_def)

lemma fl_ab_c: "round_float64 (10808639105689191 / 18014398509481984) = Finite (1351079888211149 / 2251799813685248)"
  using round_float64_normal [of "- 1" "10808639105689191 / 18014398509481984"] by (simp add: round_half_even_def)

lemma fl_abc_3: "round_float64 (1351079888211149 / 6755399441055744) = Finite (7205759403792795 / 36028797018963968)"
  using round_float64_normal [of "- 3" "1351079888211149 / 6755399441055744"] by (simp add: round_half_even_def)

lemma fl_c_b: "round_float64 (1 / 2) = Finite (1 / 2)"
  using round_float64_normal [of "- 1" "1 / 2"] by (simp add: round_half_even_def)

lemma fl_cb_a: "round_float64 (21617278211378381 / 36028797018963968) = Finite (5404319552844595 / 9007199254740992)"
  using round_float64_normal [of "- 1" "21617278211378381 / 36028797018963968"] by (simp add: round_half_even_def)

lemma fl_cba_3: "round_float64 (5404319552844595 / 27021597764222976) = Finite (7205759403792793 / 36028797018963968)"
  using round_float64_normal [of "- 3" "5404319552844595 / 27021597764222976"] by (simp add: round_half_even_def)

lemma fl_m1: "round_float64 (7205759403792795 / 36028797018963968) = Finite (7205759403792795 / 36028797018963968)"
  using round_float64_normal [of "- 3" "7205759403792795 / 36028797018963968"] by (simp add: round_half_even_def)

lemma fl_m2: "round_float64 (7205759403792793 / 36028797018963968) = Finite (7205759403792793 / 36028797018963968)"
  using round_float64_normal [of "- 3" "7205759403792793 / 36028797018963968"] by (simp add: round_half_even_def)

lemma mean_abc:
  "mean_float64 [3602879701896397 / 36028797018963968, 3602879701896397 / 18014398509481984,
                 5404319552844595 / 18014398509481984]
     = Finite (7205759403792795 / 36028797018963968)"
  by (simp add: mean_float64_short f64_add_def f64_div_count_def fl_a fl_a_b fl_ab_c fl_abc_3)

lemma mean_cba:
  "mean_float64 [5404319552844595 / 18014398509481984, 3602879701896397 / 18014398509481984,
                 3602879701896397 / 36028797018963968]
     = Finite (7205759403792793 / 36028797018963968)"
  by (simp add: mean_float64_short f64_add_def f64_div_count_def fl_c fl_c_b fl_cb_a fl_cba_3)

lemma mean_zero: "mean_float64 [0] = Finite 0"
  by (simp add: mean_float64_short f64_add_def f64_div_count_def)

theorem p_val_formula_witness:
  "valid_permutations 4 (\<lambda>_. [2, 1, 0, 3])
   \<and> arith_mean [5404319552844595 / 18014398509481984, 3602879701896397 / 18014398509481984,
                  3602879701896397 / 36028797018963968]
       = arith_mean [3602879701896397 / 36028797018963968,
                     3602879701896397 / 18014398509481984,
                     5404319552844595 / 18014398509481984]
   \<and> p_val [3602879701896397 / 36028797018963968, 3602879701896397 / 18014398509481984,
             5404319552844595 / 18014398509481984] [0] (\<lambda>_. [2, 1, 0, 3]) = Inr 0
   \<and> valid_permutations 1 (\<lambda>_. [0])
   \<and> p_val [] [0] (\<lambda>_. [0]) = Inr 0"
proof -
  have v1: "valid_permutations 1 (\<lambda>_. [0])"
    by (rule valid_permutations_const) simp
  then have v1': "valid_permutations (length ([] :: real list) + length [0 :: real]) (\<lambda>_. [0])"
    by simp
  have e: "p_val [] [0] (\<lambda>_. [0]) = Inr 0"
    using p_val_formula [OF v1', THEN conjunct2] by simp
  have v4: "valid_permutations 4 (\<lambda>_. [2, 1, 0, 3])"
    by (rule valid_permutations_const) (simp add: eval_nat_numeral)
  then have v: "valid_permutations
        (length [3602879701896397 / 36028797018963968 :: real,
                 3602879701896397 / 18014398509481984, 5404319552844595 / 18014398509481984]
         + length [0 :: real]) (\<lambda>_. [2, 1, 0, 3])"
    by (simp add: eval_nat_numeral)
  have "p_val [3602879701896397 / 36028797018963968, 3602879701896397 / 18014398509481984,
             5404319552844595 / 18014398509481984] [0] (\<lambda>_. [2, 1, 0, 3]) = Inr 0"
    using p_val_formula [OF v]
    by (simp add: permuted_A_def permuted_B_def difference_in_means_def mean_abc mean_cba
          mean_zero f64_sub_def f64_neg_def f64_add_def f64_abs_def f64_ge_def f64_le_def
          fl_m1 fl_m2)
  with v4 v1 e show ?thesis by (simp add: arith_mean_def)
qed



















section \<open>The three unbounded loops\<close>

lemma sum_list_neg:
  fixes xs :: "real list"
  assumes "xs \<noteq> []" "\<And>x. x \<in> set xs \<Longrightarrow> x < 0"
  shows "sum_list xs < 0"
  using assms
proof (induction xs)
  case Nil
  then show ?case by simp
next
  case (Cons x xs)
  show ?case
  proof (cases "xs = []")
    case True
    then show ?thesis using Cons.prems by simp
  next
    case False
    then have "sum_list xs < 0" using Cons by simp
    moreover have "x < 0" using Cons.prems by simp
    ultimately show ?thesis by simp
  qed
qed

lemma np_random_choice_set: "a \<noteq> [] \<Longrightarrow> set (np_random_choice a sz raw) \<subseteq> set a"
  by (auto simp: np_random_choice_def)

lemma lottery_break:
  assumes "0 < cost" "grand_prize < cost"
  shows "np_lt (np_mean (map real_of_int
           (np_random_choice [- cost, grand_prize - cost] 3000 r))) 0"
proof -
  let ?o = "np_random_choice [- cost, grand_prize - cost] 3000 r"
  have len: "length ?o = 3000" by (rule np_random_choice_length)
  then have ne: "map real_of_int ?o \<noteq> []" by auto
  have "set ?o \<subseteq> {- cost, grand_prize - cost}"
    using np_random_choice_set [of "[- cost, grand_prize - cost]" 3000 r] by simp
  then have "x < 0" if "x \<in> set (map real_of_int ?o)" for x
    using that assms by auto
  with ne have "sum_list (map real_of_int ?o) < 0" by (rule sum_list_neg)
  then show ?thesis
    using ne len by (simp add: np_mean_def np_lt_def divide_neg_pos)
qed

lemma lottery_loop_terminates:
  "\<exists>c. lottery_loop grand_prize raw it cost = Some c
       \<and> cost \<le> c \<and> c \<le> max cost (max grand_prize 0 + 1)"
proof (induction "nat (max grand_prize 0 + 1 - cost)" arbitrary: it cost)
  case 0
  then have "0 < cost" "grand_prize < cost" by auto
  then have "lottery_loop grand_prize raw it cost = Some cost"
    by (subst lottery_loop.simps) (simp add: lottery_break)
  then show ?case by simp
next
  case (Suc n)
  then have n: "n = nat (max grand_prize 0 + 1 - (cost + 1))"
    and le: "cost \<le> max grand_prize 0" by auto
  obtain c where c: "lottery_loop grand_prize raw (it + 1) (cost + 1) = Some c"
      "cost + 1 \<le> c" "c \<le> max (cost + 1) (max grand_prize 0 + 1)"
    using Suc.hyps(1) [OF n] by blast
  have "lottery_loop grand_prize raw it cost =
          (if np_lt (np_mean (map real_of_int (np_random_choice
                [- cost, grand_prize - cost] 3000 (raw it)))) 0
           then Some cost else Some c)"
    using c(1) by (subst lottery_loop.simps) (simp add: Let_def)
  then have "lottery_loop grand_prize raw it cost = Some cost
        \<or> lottery_loop grand_prize raw it cost = Some c"
    by (simp split: if_splits)
  moreover have "cost \<le> c" "c \<le> max cost (max grand_prize 0 + 1)"
    using c(2,3) le by simp_all
  ultimately show ?case by auto
qed

lemma set_days: "set days = {1..<366}"
  by (simp only: days_def set_upt)

lemma days_nonempty: "days \<noteq> []"
proof
  assume "days = []"
  then have "set days = {}" by simp
  then show False by (simp add: set_days)
qed

lemma birthday_not_distinct:
  assumes "365 < people"
  shows "length (np_random_choice days people r) \<noteq> length (remdups (np_random_choice days people r))"
proof
  let ?d = "np_random_choice days people r"
  assume "length ?d = length (remdups ?d)"
  then have "length (remdups ?d) = length ?d" by simp
  then have "remdups ?d = ?d" by (simp only: length_remdups_eq)
  then have "distinct ?d" by (simp only: remdups_id_iff_distinct)
  then have "card (set ?d) = people"
    by (simp add: distinct_card np_random_choice_length)
  moreover have "set ?d \<subseteq> set days"
    by (rule np_random_choice_set) (simp add: days_nonempty)
  then have "card (set ?d) \<le> card (set days)"
    by (intro card_mono) simp_all
  moreover have "card (set days) = 365" by (simp add: set_days)
  ultimately show False using assms by simp
qed

lemma fold_no_unique:
  assumes "365 < people"
  shows "fold (\<lambda>s unique_birthdays.
            if length (np_random_choice days people (raw s))
               = length (remdups (np_random_choice days people (raw s)))
            then unique_birthdays + 1 else unique_birthdays) js (u :: nat) = u"
proof (induction js arbitrary: u)
  case Nil
  show ?case by simp
next
  case (Cons j js)
  show ?case
    using birthday_not_distinct [OF assms, of "raw j"] Cons.IH [of u] by simp
qed

lemma birthday_sim_crowded: "365 < people \<Longrightarrow> birthday_sim people raw = 1"
  unfolding birthday_sim_def Let_def by (simp only: fold_no_unique)

lemma birthday_loop_break:
  assumes "0 < people" "birthday_sim people (raw it) > 0.50"
  shows "birthday_loop raw it people = Some people"
  by (subst birthday_loop.simps) (simp only: assms Let_def if_True)

lemma birthday_loop_continue:
  assumes "0 < people" "\<not> birthday_sim people (raw it) > 0.50"
  shows "birthday_loop raw it people = birthday_loop raw (it + 1) (people + 1)"
  by (subst birthday_loop.simps) (simp only: assms Let_def if_True if_False)

lemma birthday_loop_terminates:
  assumes "0 < people"
  shows "\<exists>p. birthday_loop raw it people = Some p \<and> people \<le> p \<and> p \<le> max people 366"
  using assms
proof (induction "366 - people" arbitrary: it people)
  case 0
  then have "365 < people" by simp
  then have "birthday_sim people (raw it) > 0.50"
    by (simp add: birthday_sim_crowded)
  with 0 have "birthday_loop raw it people = Some people"
    by (intro birthday_loop_break)
  then show ?case by simp
next
  case (Suc n)
  show ?case
  proof (cases "birthday_sim people (raw it) > 0.50")
    case True
    with Suc.prems have "birthday_loop raw it people = Some people"
      by (intro birthday_loop_break)
    then show ?thesis by simp
  next
    case False
    from Suc.hyps(2) have n: "n = 366 - (people + 1)" and le: "people \<le> 365" by simp_all
    obtain p where p: "birthday_loop raw (it + 1) (people + 1) = Some p"
      "people + 1 \<le> p" "p \<le> max (people + 1) 366"
      using Suc.hyps(1) [OF n, of "it + 1"] by auto
    have "birthday_loop raw it people = Some p"
      using birthday_loop_continue [of people raw it] Suc.prems False p(1) by simp
    moreover have "people \<le> p" using p(2) by simp
    moreover have "p \<le> max people 366" using p(3) le by simp
    ultimately show ?thesis by blast
  qed
qed

lemma power_loop_break:
  assumes "simulated_power sf (cz it) (tz it) n \<ge> 0.80"
  shows "power_loop sf cz tz it n = Some n"
  by (subst power_loop.simps) (simp only: assms Let_def if_True)

lemma power_loop_continue:
  assumes "\<not> simulated_power sf (cz it) (tz it) n \<ge> 0.80"
  shows "power_loop sf cz tz it n = power_loop sf cz tz (it + 1) (n + 10)"
  by (subst power_loop.simps) (simp only: assms Let_def if_False)

lemma power_loop_reaches:
  assumes "simulated_power sf (cz (it + k)) (tz (it + k)) (n + 10 * k) \<ge> 0.80"
  shows "\<exists>m. power_loop sf cz tz it n = Some m"
  using assms
proof (induction k arbitrary: it n)
  case 0
  then show ?case by (simp add: power_loop_break)
next
  case (Suc k)
  show ?case
  proof (cases "simulated_power sf (cz it) (tz it) n \<ge> 0.80")
    case True
    then show ?thesis by (simp add: power_loop_break)
  next
    case False
    have "simulated_power sf (cz (it + 1 + k)) (tz (it + 1 + k)) (n + 10 + 10 * k) \<ge> 0.80"
      using Suc.prems by (simp add: algebra_simps)
    then have "\<exists>m. power_loop sf cz tz (it + 1) (n + 10) = Some m"
      by (rule Suc.IH)
    then show ?thesis
      using power_loop_continue [of sf cz it tz n] False by simp
  qed
qed

lemma power_loop_returns:
  assumes "power_loop sf cz tz it n = Some m"
  shows "\<exists>k. simulated_power sf (cz (it + k)) (tz (it + k)) (n + 10 * k) \<ge> 0.80 \<and> m = n + 10 * k"
proof (rule power_loop.raw_induct
    [where P = "\<lambda>sf cz tz it n m.
       \<exists>k. simulated_power sf (cz (it + k)) (tz (it + k)) (n + 10 * k) \<ge> 0.80 \<and> m = n + 10 * k",
     OF _ assms])
  fix loop :: "(nat \<Rightarrow> real \<Rightarrow> real) \<Rightarrow> (nat \<Rightarrow> nat \<Rightarrow> nat \<Rightarrow> real)
                 \<Rightarrow> (nat \<Rightarrow> nat \<Rightarrow> nat \<Rightarrow> real) \<Rightarrow> nat \<Rightarrow> nat \<Rightarrow> nat option"
    and sf cz tz it n m
  assume IH: "\<And>sf cz tz it n m. loop sf cz tz it n = Some m \<Longrightarrow>
      \<exists>k. simulated_power sf (cz (it + k)) (tz (it + k)) (n + 10 * k) \<ge> 0.80 \<and> m = n + 10 * k"
    and body: "(let power = simulated_power sf (cz it) (tz it) n
                in if power \<ge> 0.80 then Some n else loop sf cz tz (it + 1) (n + 10)) = Some m"
  show "\<exists>k. simulated_power sf (cz (it + k)) (tz (it + k)) (n + 10 * k) \<ge> 0.80 \<and> m = n + 10 * k"
  proof (cases "simulated_power sf (cz it) (tz it) n \<ge> 0.80")
    case True
    with body have "m = n" by (simp add: Let_def)
    with True show ?thesis by (intro exI [of _ 0]) simp
  next
    case False
    with body have "loop sf cz tz (it + 1) (n + 10) = Some m" by (simp add: Let_def)
    then obtain k where
      "simulated_power sf (cz (it + 1 + k)) (tz (it + 1 + k)) (n + 10 + 10 * k) \<ge> 0.80"
      "m = n + 10 + 10 * k"
      using IH by blast
    then show ?thesis by (intro exI [of _ "Suc k"]) (simp add: algebra_simps)
  qed
qed

lemma arith_mean_replicate: "0 < n \<Longrightarrow> arith_mean (replicate n c) = c"
  by (simp add: arith_mean_def sum_list_replicate)

lemma np_var1_replicate: "np_var1 (replicate n c) = 0"
proof (cases "n = 0")
  case True
  then show ?thesis by (simp add: np_var1_def)
next
  case False
  then have "arith_mean (replicate n c) = c" by (simp add: arith_mean_replicate)
  then show ?thesis by (simp add: np_var1_def sum_list_replicate map_replicate_const)
qed

lemma ttest_constant_nan: "ttest_ind_column sf (replicate n c) (replicate n c) = None"
  by (simp add: ttest_ind_column_def Let_def np_var1_replicate)

lemma simulated_power_constant:
  "simulated_power sf (\<lambda>_ _. 0) (\<lambda>_ _. - 1 / 5) n = 0"
proof -
  have c: "np_random_normal control_mean control_sd n 1000 (\<lambda>_ _. 0)
           = replicate 1000 (replicate n 1)"
    by (simp add: np_random_normal_def control_mean_def control_sd_def map_replicate_const
          del: upt.simps)
  have t: "np_random_normal (control_mean * (1 + 0.10)) control_sd n 1000 (\<lambda>_ _. - 1 / 5)
           = replicate 1000 (replicate n 1)"
    by (simp add: np_random_normal_def control_mean_def control_sd_def map_replicate_const
          del: upt.simps)
  have p: "ttest_ind sf (replicate 1000 (replicate n 1)) (replicate 1000 (replicate n 1))
           = replicate 1000 None"
    by (simp add: ttest_ind_def zip_replicate ttest_constant_nan)
  show ?thesis
    unfolding simulated_power_def Let_def c t p
    by (simp add: np_sum_bool_def np_lt_def)
qed

lemma power_loop_diverges:
  "power_loop sf (\<lambda>_ _ _. 0) (\<lambda>_ _ _. - 1 / 5) it n = None"
proof (cases "power_loop sf (\<lambda>_ _ _. 0) (\<lambda>_ _ _. - 1 / 5) it n")
  case None
  then show ?thesis .
next
  case (Some m)
  then obtain k where "simulated_power sf (\<lambda>_ _. 0) (\<lambda>_ _. - 1 / 5) (n + 10 * k) \<ge> 0.80"
    using power_loop_returns by blast
  then have "(0::real) \<ge> 0.80" by (simp only: simulated_power_constant)
  then show ?thesis by simp
qed

text \<open>
  Claim C3, as amended. The break-even lottery loop and the birthday loop end for
  every output of the generator: the first at the latest when the ticket costs more than
  the grand prize, the second at the latest with 366 people. The power-analysis loop ends
  exactly when the simulated power of some pass reaches 0.80.
\<close>

theorem loops_terminate:
  "(\<exists>c. lottery_loop grand_prize raw 0 0 = Some c \<and> 0 \<le> c \<and> c \<le> max grand_prize 0 + 1)
   \<and> (\<exists>p. birthday_loop raw' 0 2 = Some p \<and> 2 \<le> p \<and> p \<le> 366)
   \<and> ((\<exists>m. power_loop sf cz tz 0 50 = Some m)
        = (\<exists>k. simulated_power sf (cz k) (tz k) (50 + 10 * k) \<ge> 0.80))"
proof (intro conjI)
  show "\<exists>c. lottery_loop grand_prize raw 0 0 = Some c \<and> 0 \<le> c \<and> c \<le> max grand_prize 0 + 1"
    using lottery_loop_terminates [of grand_prize raw 0 0] by auto
  show "\<exists>p. birthday_loop raw' 0 2 = Some p \<and> 2 \<le> p \<and> p \<le> 366"
    using birthday_loop_terminates [of 2 raw' 0] by simp
  show "(\<exists>m. power_loop sf cz tz 0 50 = Some m)
        = (\<exists>k. simulated_power sf (cz k) (tz k) (50 + 10 * k) \<ge> 0.80)"
  proof
    assume "\<exists>m. power_loop sf cz tz 0 50 = Some m"
    then obtain m where "power_loop sf cz tz 0 50 = Some m" ..
    from power_loop_returns [OF this]
    show "\<exists>k. simulated_power sf (cz k) (tz k) (50 + 10 * k) \<ge> 0.80" by auto
  next
    assume "\<exists>k. simulated_power sf (cz k) (tz k) (50 + 10 * k) \<ge> 0.80"
    then obtain k where "simulated_power sf (cz (0 + k)) (tz (0 + k)) (50 + 10 * k) \<ge> 0.80"
      by auto
    then show "\<exists>m. power_loop sf cz tz 0 50 = Some m"
      by (rule power_loop_reaches)
  qed
qed

text \<open>
  The claim as stated fails on the power-analysis loop. When every control draw is 1
  (standard normal variate 0) and every treatment draw is 1 too (variate \<open>- 1 / 5\<close>, since
  \<open>1.1 + 0.5 * (- 1 / 5) = 1\<close>), every t-test is on two constant, equal samples, every
  p-value is NaN, the power is 0 and the loop never ends, whatever the distribution
  function.
\<close>

theorem power_loop_runs_forever:
  "\<forall>sf. power_loop sf (\<lambda>_ _ _. 0) (\<lambda>_ _ _. - 1 / 5) 0 50 = None"
  by (rule allI) (rule power_loop_diverges)

section \<open>The estimate of pi\<close>
















section \<open>Corn production and profits\<close>

lemma mean_corn_nonneg_rain:
  "0 \<le> rain \<Longrightarrow> 0 \<le> cost \<Longrightarrow> mean_corn rain cost = PyFloat (100 * cost powr 0.1 * rain powr 0.2)"
  by (simp add: mean_corn_def py_pow_def py_mul_def)

lemma mean_corn_neg_rain:
  "rain < 0 \<Longrightarrow> 0 \<le> cost \<Longrightarrow>
   mean_corn rain cost
     = PyComplex (of_real (100 * cost powr 0.1) * rcis (\<bar>rain\<bar> powr 0.2) (0.2 * pi))"
  by (simp add: mean_corn_def py_pow_def py_mul_def to_complex_def)

lemma mean_corn_complex: "rain < 0 \<Longrightarrow> \<exists>z. mean_corn rain cost = PyComplex z"
  by (simp add: mean_corn_def py_pow_def py_mul_def split: py_num.splits)

lemma sin_fifth_pi: "0 < sin (0.2 * pi)"
  by (rule sin_gt_zero) (simp_all add: pi_gt_zero)

lemma Im_mean_corn:
  assumes "rain < 0" "0 < cost"
  shows "0 < Im (of_real (100 * cost powr 0.1) * rcis (\<bar>rain\<bar> powr 0.2) (0.2 * pi))"
proof -
  have "0 < 100 * cost powr 0.1 * (\<bar>rain\<bar> powr 0.2 * sin (0.2 * pi))"
    using assms sin_fifth_pi by (intro mult_pos_pos) simp_all
  then show ?thesis by (simp add: Im_rcis)
qed

lemma corn_produced_neg_rain: "rain < 0 \<Longrightarrow> corn_produced rain cost k = Inl TypeError"
  using mean_corn_complex [of rain cost] by (auto simp: corn_produced_def np_random_poisson_def)

lemma corn_produced_value:
  assumes "0 < cost" "0 \<le> rain"
  shows "corn_produced rain cost k = Inr (if rain = 0 then 0 else k)"
proof -
  define l where "l = 100 * cost powr 0.1 * rain powr 0.2"
  have m: "mean_corn rain cost = PyFloat l"
    unfolding l_def using assms by (intro mean_corn_nonneg_rain) simp_all
  have nonneg: "0 \<le> l" unfolding l_def by simp
  have zero: "l = 0 \<longleftrightarrow> rain = 0" unfolding l_def using assms(1) by simp
  have "np_random_poisson (PyFloat l) k = Inr (if l = 0 then 0 else k)"
    using nonneg by (simp add: np_random_poisson_def)
  then show ?thesis
    unfolding corn_produced_def m by (simp only: zero)
qed

text \<open>
  Claim C7. The claim says that no step before the sampler can produce an invalid value.
  The code produces one: at \<open>rain = - 1\<close> and \<open>cost = 5000\<close> the product
  \<^verbatim>\<open>100 * cost**0.1 * rain**0.2\<close> is a complex number with a non-zero imaginary part,
  which is no mean of a Poisson distribution. The sampler, handed this value, raises
  TypeError, and \<open>profits\<close>, which draws the rain, passes the error on (\<open>rain = - 1\<close> is
  the draw \<open>50 + 15 * z\<close> at \<open>z = - 17 / 5\<close>). At the rain 50 the same call returns the
  count that the generator draws.
\<close>

theorem corn_produced_negative_rain:
  "\<not> py_is_real (mean_corn (- 1) 5000)
   \<and> corn_produced (- 1) 5000 k = Inl TypeError
   \<and> profits globals_after_corn_production 5000 (- 17 / 5) z_price k = Inl TypeError
   \<and> corn_produced 50 5000 k = Inr k"
proof (intro conjI)
  define z where "z = of_real (100 * 5000 powr 0.1) * rcis (\<bar>- 1 :: real\<bar> powr 0.2) (0.2 * pi)"
  have "mean_corn (- 1) 5000 = PyComplex z"
    unfolding z_def by (rule mean_corn_neg_rain) simp_all
  moreover have "0 < Im z"
    unfolding z_def by (rule Im_mean_corn) simp_all
  ultimately show "\<not> py_is_real (mean_corn (- 1) 5000)" by (simp add: py_is_real_def)
  show "corn_produced (- 1) 5000 k = Inl TypeError"
    by (rule corn_produced_neg_rain) simp
  have "corn_produced (50 + 15 * (- 17 / 5)) 5000 k = Inl TypeError"
    by (rule corn_produced_neg_rain) simp
  then show "profits globals_after_corn_production 5000 (- 17 / 5) z_price k = Inl TypeError"
    by (simp add: profits_def globals_after_corn_production_def)
  show "corn_produced 50 5000 k = Inr k"
    using corn_produced_value [of 5000 50 k] by simp
qed

section \<open>The purchase flow reseeds the generator\<close>

lemma revenue_loop_acc:
  "\<exists>r. fst (revenue_loop lib xs acc g) = acc @ r \<and> length r = length xs"
proof (induction xs arbitrary: acc g)
  case Nil
  show ?case by simp
next
  case (Cons x xs)
  obtain purchases g1 where b: "rs_binomial lib x hist_purchase_rate g = (purchases, g1)"
    by (cases "rs_binomial lib x hist_purchase_rate g")
  obtain vs g2 where e: "draw_n purchases (rs_exponential lib purchase_value_mean) g1 = (vs, g2)"
    by (cases "draw_n purchases (rs_exponential lib purchase_value_mean) g1")
  obtain r where "fst (revenue_loop lib xs (acc @ [sum_list vs]) g2) = (acc @ [sum_list vs]) @ r"
      "length r = length xs"
    using Cons.IH by blast
  then show ?case
    by (intro exI [of _ "sum_list vs # r"]) (simp add: b e)
qed

lemma revenue_loop_prefix:
  assumes "take k xs = take k ys"
  shows "take (length acc + k) (fst (revenue_loop lib xs acc g))
         = take (length acc + k) (fst (revenue_loop lib ys acc g))"
  using assms
proof (induction k arbitrary: xs ys acc g)
  case 0
  obtain r r' where "fst (revenue_loop lib xs acc g) = acc @ r"
      "fst (revenue_loop lib ys acc g) = acc @ r'"
    using revenue_loop_acc by metis
  then show ?case by simp
next
  case (Suc k)
  show ?case
  proof (cases xs)
    case Nil
    with Suc.prems have "ys = []" by (cases ys) simp_all
    with Nil show ?thesis by simp
  next
    case (Cons x xs')
    with Suc.prems obtain ys' where ys: "ys = x # ys'" and t: "take k xs' = take k ys'"
      by (cases ys) simp_all
    obtain purchases g1 where b: "rs_binomial lib x hist_purchase_rate g = (purchases, g1)"
      by (cases "rs_binomial lib x hist_purchase_rate g")
    obtain vs g2 where e: "draw_n purchases (rs_exponential lib purchase_value_mean) g1 = (vs, g2)"
      by (cases "draw_n purchases (rs_exponential lib purchase_value_mean) g1")
    have "take (length (acc @ [sum_list vs]) + k) (fst (revenue_loop lib xs' (acc @ [sum_list vs]) g2))
          = take (length (acc @ [sum_list vs]) + k) (fst (revenue_loop lib ys' (acc @ [sum_list vs]) g2))"
      by (rule Suc.IH [OF t])
    then show ?thesis by (simp add: Cons ys b e)
  qed
qed

lemma get_revenue_seeded: "get_revenue lib signups g = revenue_loop lib signups [] (rs_seed lib 123)"
  by (simp add: get_revenue_def)

lemma revenues_after:
  "revenues (globals_after_purchase_flow lib) ct_rate su_rate g =
     (case get_signups lib ''low'' ct_rate su_rate 10000 g of
        (Inl e, g1) \<Rightarrow> (Inl e, g1)
      | (Inr signups_low, g1) \<Rightarrow>
          (case get_signups lib ''high'' ct_rate su_rate 10000
                  (snd (revenue_loop lib signups_low [] (rs_seed lib 123))) of
             (Inl e, g3) \<Rightarrow> (Inl e, g3)
           | (Inr signups_high, g3) \<Rightarrow>
               (Inr (fst (revenue_loop lib signups_low [] (rs_seed lib 123)),
                     fst (revenue_loop lib signups_high [] (rs_seed lib 123))),
                snd (revenue_loop lib signups_high [] (rs_seed lib 123)))))"
  by (simp add: revenues_def globals_after_purchase_flow_def get_revenue_seeded Let_def
        split: prod.splits sum.splits)

text \<open>
  Claim C9. \<open>get_revenue\<close> sets the generator to the state of seed 123 before its first
  draw, so what it returns (the revenues and the state it leaves) depends on its argument
  only: two calls with equal sign-ups return equal revenues whatever the state before,
  and sign-ups that agree on their first \<open>k\<close> entries give revenues that agree on their
  first \<open>k\<close> entries. In the exercise on the probability of losing money, \<open>rev_low\<close> and
  \<open>rev_high\<close> are both computed by the loop of \<open>get_revenue\<close> from the state of seed 123,
  that is from the same random stream.
\<close>

theorem get_revenue_deterministic:
  "get_revenue lib signups g = get_revenue lib signups g'
   \<and> get_revenue lib signups g = revenue_loop lib signups [] (rs_seed lib 123)
   \<and> (take k signups = take k signups'
        \<longrightarrow> take k (fst (get_revenue lib signups g)) = take k (fst (get_revenue lib signups' g')))
   \<and> revenues (globals_after_purchase_flow lib) ct_rate su_rate g =
       (case get_signups lib ''low'' ct_rate su_rate 10000 g of
          (Inl e, g1) \<Rightarrow> (Inl e, g1)
        | (Inr signups_low, g1) \<Rightarrow>
            (case get_signups lib ''high'' ct_rate su_rate 10000
                    (snd (revenue_loop lib signups_low [] (rs_seed lib 123))) of
               (Inl e, g3) \<Rightarrow> (Inl e, g3)
             | (Inr signups_high, g3) \<Rightarrow>
                 (Inr (fst (revenue_loop lib signups_low [] (rs_seed lib 123)),
                       fst (revenue_loop lib signups_high [] (rs_seed lib 123))),
                  snd (revenue_loop lib signups_high [] (rs_seed lib 123)))))"
proof (intro conjI impI)
  show "get_revenue lib signups g = get_revenue lib signups g'"
    by (simp add: get_revenue_seeded)
  show "get_revenue lib signups g = revenue_loop lib signups [] (rs_seed lib 123)"
    by (rule get_revenue_seeded)
  show "take k (fst (get_revenue lib signups g)) = take k (fst (get_revenue lib signups' g'))"
    if "take k signups = take k signups'"
    using revenue_loop_prefix [OF that, of "[]" lib "rs_seed lib 123"]
    by (simp add: get_revenue_seeded)
  show "revenues (globals_after_purchase_flow lib) ct_rate su_rate g =
       (case get_signups lib ''low'' ct_rate su_rate 10000 g of
          (Inl e, g1) \<Rightarrow> (Inl e, g1)
        | (Inr signups_low, g1) \<Rightarrow>
            (case get_signups lib ''high'' ct_rate su_rate 10000
                    (snd (revenue_loop lib signups_low [] (rs_seed lib 123))) of
               (Inl e, g3) \<Rightarrow> (Inl e, g3)
             | (Inr signups_high, g3) \<Rightarrow>
                 (Inr (fst (revenue_loop lib signups_low [] (rs_seed lib 123)),
                       fst (revenue_loop lib signups_high [] (rs_seed lib 123))),
                  snd (revenue_loop lib signups_high [] (rs_seed lib 123)))))"
    by (rule revenues_after)
qed

lemma draw_n_0: "draw_n 0 d g = ([], g)"
  by (simp add: draw_n_def)

lemma draw_n_Suc:
  "draw_n (Suc n) d g = (let (x, g1) = d g; (xs, g2) = draw_n n d g1 in (x # xs, g2))"
  by (simp add: draw_n_def)

lemma counting_revenue_12: "get_revenue counting_generator [1, 2] 0 = ([1000, 2000], 128)"
  by (simp add: get_revenue_def counting_generator_def draw_n_0 draw_n_Suc
        purchase_value_mean_def numeral_2_eq_2)

theorem get_revenue_deterministic_witness:
  "take 1 [1, 2 :: nat] = take 1 [1, 3]
   \<and> take 1 (fst (get_revenue counting_generator [1, 3] 7)) = [1000]"
proof -
  have t: "take 1 [1, 2 :: nat] = take 1 [1, 3]" by simp
  have "take 1 [1, 2 :: nat] = take 1 [1, 3]
        \<longrightarrow> take 1 (fst (get_revenue counting_generator [1, 2] 0))
            = take 1 (fst (get_revenue counting_generator [1, 3] 7))"
    by (rule get_revenue_deterministic [of counting_generator "[1, 2]" 0 7 1 "[1, 3]",
          THEN conjunct2, THEN conjunct2, THEN conjunct1])
  with t have "take 1 (fst (get_revenue counting_generator [1, 3] 7))
               = take 1 (fst (get_revenue counting_generator [1, 2] 0))"
    by simp
  also have "\<dots> = [1000]" unfolding counting_revenue_12 by simp
  finally show ?thesis using t by simp
qed

section \<open>Calls across exercises\<close>

lemma profits_unfold:
  "profits globals cost z_rain z_price k =
     (case global_corn_produced globals of
        None \<Rightarrow> Inl NameError
      | Some callee \<Rightarrow>
          (case callee (50 + 15 * z_rain) cost k of
             Inl e \<Rightarrow> Inl e
           | Inr supply \<Rightarrow>
               Inr ((40 + 10 * z_price)
                      * min (real supply) (corn_demanded (40 + 10 * z_price)) - cost)))"
  by (simp add: profits_def Let_def min_def split: option.splits sum.splits)

lemma losing_money_unbound:
  "fst (prob_losing_money (globals\<lparr>global_get_signups := None\<rparr>) ct_rate su_rate g) = Inl NameError"
  "fst (prob_losing_money (globals\<lparr>global_get_revenue := None\<rparr>) ct_rate su_rate g) = Inl NameError"
  by (simp_all add: prob_losing_money_def revenues_def split: option.splits)

lemma losing_money_after:
  "prob_losing_money (globals_after_purchase_flow lib) ct_rate su_rate g =
     (case get_signups lib ''low'' ct_rate su_rate 10000 g of
        (Inl e, g1) \<Rightarrow> (Inl e, g1)
      | (Inr signups_low, g1) \<Rightarrow>
          (case get_revenue lib signups_low g1 of
             (rev_low, g2) \<Rightarrow>
               (case get_signups lib ''high'' ct_rate su_rate 10000 g2 of
                  (Inl e, g3) \<Rightarrow> (Inl e, g3)
                | (Inr signups_high, g3) \<Rightarrow>
                    (case get_revenue lib signups_high g3 of
                       (rev_high, g4) \<Rightarrow>
                         (case np_sub_arrays rev_high rev_low of
                            Inl e \<Rightarrow> (Inl e, g4)
                          | Inr diff \<Rightarrow>
                              (Inr (np_mean_bool (map (\<lambda>d. d < 3000) diff)), g4))))))"
  by (simp add: prob_losing_money_def revenues_def globals_after_purchase_flow_def Let_def
        split: prod.splits sum.splits)

text \<open>
  Claim C6, as amended. Exercises do call code that earlier exercises define. \<open>profits\<close>
  calls \<open>corn_produced\<close>, bound by the corn production exercise: its supply is what
  \<open>corn_produced\<close> returns for the drawn rain and the cost, its profit is the price times
  the smaller of supply and demand, less the cost, an error of \<open>corn_produced\<close> is its
  error, and without \<open>corn_produced\<close> among the globals it raises NameError. The exercise
  on the probability of losing money calls \<open>get_signups\<close> and \<open>get_revenue\<close>, bound by the
  sign-up and purchase flow exercises, once for \<open>'low'\<close> and once for \<open>'high'\<close>, and
  raises NameError without either.
\<close>

theorem exercises_call_earlier_exercises:
  "profits globals cost z_rain z_price k =
     (case global_corn_produced globals of
        None \<Rightarrow> Inl NameError
      | Some callee \<Rightarrow>
          (case callee (50 + 15 * z_rain) cost k of
             Inl e \<Rightarrow> Inl e
           | Inr supply \<Rightarrow>
               Inr ((40 + 10 * z_price)
                      * min (real supply) (corn_demanded (40 + 10 * z_price)) - cost)))
   \<and> global_corn_produced globals_after_corn_production = Some corn_produced
   \<and> prob_losing_money (globals_after_purchase_flow lib) ct_rate su_rate g =
     (case get_signups lib ''low'' ct_rate su_rate 10000 g of
        (Inl e, g1) \<Rightarrow> (Inl e, g1)
      | (Inr signups_low, g1) \<Rightarrow>
          (case get_revenue lib signups_low g1 of
             (rev_low, g2) \<Rightarrow>
               (case get_signups lib ''high'' ct_rate su_rate 10000 g2 of
                  (Inl e, g3) \<Rightarrow> (Inl e, g3)
                | (Inr signups_high, g3) \<Rightarrow>
                    (case get_revenue lib signups_high g3 of
                       (rev_high, g4) \<Rightarrow>
                         (case np_sub_arrays rev_high rev_low of
                            Inl e \<Rightarrow> (Inl e, g4)
                          | Inr diff \<Rightarrow>
                              (Inr (np_mean_bool (map (\<lambda>d. d < 3000) diff)), g4))))))
   \<and> fst (prob_losing_money (dgp\<lparr>global_get_signups := None\<rparr>) ct_rate su_rate g)
       = Inl NameError
   \<and> fst (prob_losing_money (dgp\<lparr>global_get_revenue := None\<rparr>) ct_rate su_rate g)
       = Inl NameError"
  by (intro conjI profits_unfold losing_money_after losing_money_unbound)
     (simp add: globals_after_corn_production_def)

text \<open>
  The claim as stated fails on both exercises. With a cost of 5000, rain 50, price 40
  and a Poisson count of 560, \<open>profits\<close> returns \<open>40 * 64 - 5000 = - 2440\<close> once
  \<open>corn_produced\<close> is defined and raises NameError before; the exercise on the
  probability of losing money raises NameError before the sign-up and purchase flow
  exercises have defined \<open>get_signups\<close> and \<open>get_revenue\<close>.
\<close>

theorem profits_depends_on_corn_produced:
  "profits globals_without_corn_production 5000 0 0 560 = Inl NameError
   \<and> profits globals_after_corn_production 5000 0 0 560 = Inr (- 2440)
   \<and> fst (prob_losing_money globals_before_signup_flow Map.empty Map.empty (0 :: nat))
       = Inl NameError"
proof (intro conjI)
  show "profits globals_without_corn_production 5000 0 0 560 = Inl NameError"
    by (simp add: profits_def globals_without_corn_production_def)
  have "corn_produced 50 5000 560 = Inr 560"
    using corn_produced_value [of 5000 50 560] by simp
  then show "profits globals_after_corn_production 5000 0 0 560 = Inr (- 2440)"
    by (simp add: profits_def globals_after_corn_production_def corn_demanded_def)
  show "fst (prob_losing_money globals_before_signup_flow Map.empty Map.empty (0 :: nat))
       = Inl NameError"
    by (simp add: prob_losing_money_def revenues_def globals_before_signup_flow_def)
qed

section \<open>Shuffling in place and the shared deck\<close>

lemma mset_reorder:
  assumes "mset order = mset [0..<length xs]"
  shows "mset (map ((!) xs) order) = mset xs"
proof -
  have "mset (map ((!) xs) order) = image_mset ((!) xs) (mset order)" by simp
  also have "\<dots> = image_mset ((!) xs) (mset [0..<length xs])" by (simp only: assms)
  also have "\<dots> = mset (map ((!) xs) [0..<length xs])" by simp
  also have "\<dots> = mset xs" by (simp only: map_nth)
  finally show ?thesis .
qed

lemma shuffle_heap:
  "heap (np_random_shuffle x order st) y = (if y = x then map ((!) (heap st x)) order else heap st y)"
  by (simp add: np_random_shuffle_def)

lemma shuffle_fields:
  "deck_of_cards (np_random_shuffle x order st) = deck_of_cards st"
  "next_addr (np_random_shuffle x order st) = next_addr st"
  by (simp_all add: np_random_shuffle_def)

lemma shuffle_mset:
  assumes "mset order = mset [0..<length (heap st x)]"
  shows "mset (heap (np_random_shuffle x order st) y) = mset (heap st y)"
  using mset_reorder [OF assms] by (simp add: shuffle_heap)

lemma two_kind_loop_frame:
  assumes "\<And>i. i \<in> set js \<Longrightarrow> mset (order i) = mset [0..<length (heap st (deck_of_cards st))]"
  shows "mset (heap (snd (two_kind_loop order js k st)) y) = mset (heap st y)
       \<and> deck_of_cards (snd (two_kind_loop order js k st)) = deck_of_cards st
       \<and> (y \<noteq> deck_of_cards st \<longrightarrow> heap (snd (two_kind_loop order js k st)) y = heap st y)"
  using assms
proof (induction js arbitrary: k st)
  case Nil
  show ?case by simp
next
  case (Cons i js)
  let ?st1 = "np_random_shuffle (deck_of_cards st) (order i) st"
  have o: "mset (order i) = mset [0..<length (heap st (deck_of_cards st))]"
    using Cons.prems by simp
  have m: "mset (heap ?st1 z) = mset (heap st z)" for z
    by (rule shuffle_mset [OF o])
  have d: "deck_of_cards ?st1 = deck_of_cards st" by (simp add: shuffle_fields)
  have "length (heap ?st1 (deck_of_cards ?st1)) = length (heap st (deck_of_cards st))"
    using m [of "deck_of_cards st"] d by (metis mset_eq_length)
  then have v: "mset (order j) = mset [0..<length (heap ?st1 (deck_of_cards ?st1))]"
    if "j \<in> set js" for j
    using Cons.prems that by simp
  note IH = Cons.IH [OF v]
  show ?case
    using IH m d by (auto simp: Let_def shuffle_heap split: sum.splits)
qed

lemma full_house_loop_frame:
  "deck_of_cards (snd (full_house_loop order js k st)) = deck_of_cards st
   \<and> (y \<noteq> deck_of_cards st \<longrightarrow> heap (snd (full_house_loop order js k st)) y = heap st y)"
proof (induction js arbitrary: k st)
  case Nil
  show ?case by simp
next
  case (Cons i js)
  show ?case
    using Cons.IH
    by (auto simp: Let_def shuffle_heap shuffle_fields split: sum.splits)
qed

lemma shuffling_a_deck_state:
  "snd (shuffling_a_deck order st)
     = np_random_shuffle chap1_data_deck order (import_deck_of_cards st)"
  by (simp add: shuffling_a_deck_def Let_def import_deck_of_cards_def)

lemma two_of_a_kind_state:
  "snd (two_of_a_kind order st)
     = snd (two_kind_loop order [0..<10000] 0 (import_deck_of_cards st))"
  by (simp add: two_of_a_kind_def Let_def split: prod.splits sum.splits)

lemma full_house_state:
  "snd (full_house order st)
     = snd (full_house_loop order [0..<50000] 0
              (st\<lparr>heap := (heap st)(next_addr st := heap st (deck_of_cards st)),
                  next_addr := next_addr st + 1, deck_of_cards := next_addr st\<rparr>))"
  by (simp add: full_house_def list_copy_def Let_def split: prod.splits sum.splits)

lemma import_fields:
  "heap (import_deck_of_cards st) = heap st"
  "deck_of_cards (import_deck_of_cards st) = chap1_data_deck"
  by (simp_all add: import_deck_of_cards_def)

text \<open>
  Claim C5, as amended. Shuffling is in place, so the exercises that shuffle the imported
  deck (shuffling a deck of cards, two of a kind) leave the module's list with the same
  cards, each as often as before, in the order the shuffles left; every other list is
  left as it was. The full house exercise shuffles a copy and leaves the module's list
  as it was.
\<close>

theorem shuffles_permute_shared_deck:
  assumes "valid_orders (length (heap st chap1_data_deck)) order"
  shows "mset (heap (snd (shuffling_a_deck (order 0) st)) chap1_data_deck)
           = mset (heap st chap1_data_deck)
       \<and> mset (heap (snd (two_of_a_kind order st)) chap1_data_deck)
           = mset (heap st chap1_data_deck)
       \<and> (\<forall>y. y \<noteq> chap1_data_deck \<longrightarrow>
             heap (snd (shuffling_a_deck (order 0) st)) y = heap st y
             \<and> heap (snd (two_of_a_kind order st)) y = heap st y)
       \<and> (deck_of_cards st = chap1_data_deck \<and> next_addr st \<noteq> chap1_data_deck \<longrightarrow>
             heap (snd (full_house order st)) chap1_data_deck = heap st chap1_data_deck)"
proof (intro conjI allI impI)
  let ?st0 = "import_deck_of_cards st"
  have all: "mset (order i) = mset [0..<length (heap st chap1_data_deck)]"
    if "i \<in> set [0..<10000]" for i
    using assms that by (simp add: valid_orders_def list_all_iff)
  have o: "mset (order 0) = mset [0..<length (heap ?st0 chap1_data_deck)]"
    using all [of 0] by (simp add: import_fields)
  show "mset (heap (snd (shuffling_a_deck (order 0) st)) chap1_data_deck)
          = mset (heap st chap1_data_deck)"
    unfolding shuffling_a_deck_state using shuffle_mset [OF o] by (simp add: import_fields)
  have v: "mset (order i) = mset [0..<length (heap ?st0 (deck_of_cards ?st0))]"
    if "i \<in> set [0..<10000]" for i
    using all [OF that] by (simp add: import_fields)
  have frame:
    "mset (heap (snd (two_kind_loop order [0..<10000] 0 ?st0)) y) = mset (heap ?st0 y)
     \<and> deck_of_cards (snd (two_kind_loop order [0..<10000] 0 ?st0)) = deck_of_cards ?st0
     \<and> (y \<noteq> deck_of_cards ?st0 \<longrightarrow>
          heap (snd (two_kind_loop order [0..<10000] 0 ?st0)) y = heap ?st0 y)" for y
    by (rule two_kind_loop_frame) (rule v)
  show "mset (heap (snd (two_of_a_kind order st)) chap1_data_deck)
          = mset (heap st chap1_data_deck)"
    unfolding two_of_a_kind_state using frame [of chap1_data_deck]
    by (simp only: import_fields)
  show "heap (snd (shuffling_a_deck (order 0) st)) y = heap st y" if "y \<noteq> chap1_data_deck" for y
    unfolding shuffling_a_deck_state using that by (simp add: shuffle_heap import_fields)
  show "heap (snd (two_of_a_kind order st)) y = heap st y" if "y \<noteq> chap1_data_deck" for y
    unfolding two_of_a_kind_state using frame [of y] that
    by (simp only: import_fields) simp
  show "heap (snd (full_house order st)) chap1_data_deck = heap st chap1_data_deck"
    if "deck_of_cards st = chap1_data_deck \<and> next_addr st \<noteq> chap1_data_deck"
  proof -
    let ?st1 = "st\<lparr>heap := (heap st)(next_addr st := heap st (deck_of_cards st)),
                  next_addr := next_addr st + 1, deck_of_cards := next_addr st\<rparr>"
    have "chap1_data_deck \<noteq> deck_of_cards ?st1" using that by simp
    then have "heap (snd (full_house_loop order [0..<50000] 0 ?st1)) chap1_data_deck
               = heap ?st1 chap1_data_deck"
      using full_house_loop_frame [of order "[0..<50000]" 0 ?st1 chap1_data_deck] by blast
    also have "\<dots> = heap st chap1_data_deck" using that by simp
    finally show ?thesis unfolding full_house_state .
  qed
qed

lemma valid_orders_const: "mset p = mset [0..<n] \<Longrightarrow> valid_orders n (\<lambda>_. p)"
  by (simp add: valid_orders_def list_all_iff)

lemma three_cards_deck:
  "heap three_cards chap1_data_deck = [(''Spade'', 11), (''Heart'', 10), (''Diamond'', 1)]"
  by (simp add: three_cards_def)

theorem shuffles_permute_shared_deck_witness:
  "valid_orders 3 (\<lambda>_. [2, 0, 1])
   \<and> mset (heap (snd (two_of_a_kind (\<lambda>_. [2, 0, 1]) three_cards)) chap1_data_deck)
       = {#(''Spade'', 11), (''Heart'', 10), (''Diamond'', 1)#}"
proof -
  have v3: "valid_orders 3 (\<lambda>_. [2, 0, 1])"
    by (rule valid_orders_const) (simp add: eval_nat_numeral)
  have "length (heap three_cards chap1_data_deck) = 3"
    by (simp add: three_cards_deck)
  with v3 have "valid_orders (length (heap three_cards chap1_data_deck)) (\<lambda>_. [2, 0, 1])"
    by (simp only:)
  from shuffles_permute_shared_deck [OF this]
  have "mset (heap (snd (two_of_a_kind (\<lambda>_. [2, 0, 1]) three_cards)) chap1_data_deck)
       = {#(''Spade'', 11), (''Heart'', 10), (''Diamond'', 1)#}"
    by (simp add: three_cards_deck)
  with v3 show ?thesis by (rule conjI)
qed

lemma shuffle_identity:
  assumes "order = [0..<length (heap st x)]"
  shows "np_random_shuffle x order st = st"
proof -
  have "map ((!) (heap st x)) order = heap st x"
    unfolding assms by (rule map_nth)
  then show ?thesis by (simp add: np_random_shuffle_def)
qed

lemma two_kind_loop_identity:
  assumes "\<And>i. i \<in> set js \<Longrightarrow> order i = [0..<length (heap st (deck_of_cards st))]"
  shows "snd (two_kind_loop order js k st) = st"
  using assms
proof (induction js arbitrary: k)
  case Nil
  show ?case by simp
next
  case (Cons i js)
  have s: "np_random_shuffle (deck_of_cards st) (order i) st = st"
    by (rule shuffle_identity) (simp add: Cons.prems)
  have "snd (two_kind_loop order js k' st) = st" for k'
    by (rule Cons.IH) (simp add: Cons.prems)
  then show ?case
    by (simp add: s Let_def split: sum.splits)
qed

text \<open>
  The claim as stated fails on the deck of three cards, Spade 11, Heart 10 and Diamond 1.
  After the exercise that shuffles the deck, with the permutation \<open>[2, 0, 1]\<close>, the
  module's list is Diamond 1, Spade 11, Heart 10; and so it is after the two of a kind
  exercise when the first of its 10000 shuffles picks that permutation and the others
  leave the order as it is.
\<close>

theorem shuffle_reorders_shared_deck:
  "heap three_cards chap1_data_deck = [(''Spade'', 11), (''Heart'', 10), (''Diamond'', 1)]
   \<and> heap (snd (shuffling_a_deck [2, 0, 1] three_cards)) chap1_data_deck
       = [(''Diamond'', 1), (''Spade'', 11), (''Heart'', 10)]
   \<and> heap (snd (two_of_a_kind (\<lambda>i. if i = 0 then [2, 0, 1] else [0, 1, 2]) three_cards))
        chap1_data_deck
       = [(''Diamond'', 1), (''Spade'', 11), (''Heart'', 10)]"
proof (intro conjI)
  define order where "order = (\<lambda>i :: nat. if i = 0 then [2, 0, 1] else [0, 1, 2 :: nat])"
  define st0 where "st0 = import_deck_of_cards three_cards"
  define st1 where "st1 = np_random_shuffle chap1_data_deck (order 0) st0"
  have o0: "order 0 = [2, 0, 1]" and oi: "i \<noteq> 0 \<Longrightarrow> order i = [0, 1, 2]" for i
    by (simp_all add: order_def)
  have d0: "deck_of_cards st0 = chap1_data_deck"
    by (simp add: st0_def import_fields)
  show "heap three_cards chap1_data_deck = [(''Spade'', 11), (''Heart'', 10), (''Diamond'', 1)]"
    by (rule three_cards_deck)
  have h1: "heap st1 chap1_data_deck = [(''Diamond'', 1), (''Spade'', 11), (''Heart'', 10)]"
    by (simp add: st1_def st0_def o0 shuffle_heap import_fields three_cards_deck)
  then show "heap (snd (shuffling_a_deck [2, 0, 1] three_cards)) chap1_data_deck
       = [(''Diamond'', 1), (''Spade'', 11), (''Heart'', 10)]"
    by (simp only: shuffling_a_deck_state st1_def st0_def o0)
  have d1: "deck_of_cards st1 = chap1_data_deck"
    by (simp add: st1_def shuffle_fields d0)
  have rest: "snd (two_kind_loop order [Suc 0..<10000] k st1) = st1" for k
  proof (rule two_kind_loop_identity)
    fix i :: nat
    assume "i \<in> set [Suc 0..<10000]"
    then have "i \<noteq> 0" by simp
    then have "order i = [0, 1, 2]" by (rule oi)
    moreover have "length (heap st1 (deck_of_cards st1)) = 3"
      unfolding d1 h1 by simp
    moreover have "[0..<3] = [0, 1, 2 :: nat]"
      by code_simp
    ultimately show "order i = [0..<length (heap st1 (deck_of_cards st1))]"
      by simp
  qed
  have up: "[0..<10000] = 0 # [Suc 0..<10000]"
    by (rule upt_conv_Cons) simp
  have "snd (two_kind_loop order (0 # [Suc 0..<10000]) 0 st0) = st1"
    by (simp add: d0 st1_def [symmetric] rest Let_def split: sum.splits del: upt.simps)
  then have "snd (two_of_a_kind order three_cards) = st1"
    by (simp only: two_of_a_kind_state up st0_def)
  then show "heap (snd (two_of_a_kind (\<lambda>i. if i = 0 then [2, 0, 1] else [0, 1, 2]) three_cards))
        chap1_data_deck
       = [(''Diamond'', 1), (''Spade'', 11), (''Heart'', 10)]"
    by (simp only: h1 order_def)
qed

end
